theory Spec2Isabelle
  imports Complex_Main
begin

section \<open>JavaScript values\<close>

text \<open>
  This theory embeds the in-memory order service, cart service and user service of the
  repository (Express request handlers over a store), and the queue consumer and retry
  policy that the repository only configures, and states claims C1 to C10 about them. A
  handler becomes a function from the request and the store to the reply and the new store.

  The request handlers of the order, cart and user services receive JSON bodies parsed by
  \<^verbatim>\<open>express.json()\<close> and test them with JavaScript's own operators. A value is one
  of the JSON shapes, or \<^verbatim>\<open>undefined\<close> (what reading an absent property gives), or
  one of the numbers that are not finite: \<^verbatim>\<open>NaN\<close>, \<^verbatim>\<open>Infinity\<close>,
  \<^verbatim>\<open>-Infinity\<close>. A finite number \<open>JNum x\<close> is a binary64 double, given by its exact
  rational value \<open>x\<close>; the two zeros are one value (the handlers never divide by zero,
  and both print as \<^verbatim>\<open>0\<close>). A string is the sequence of bytes of its UTF-8
  encoding.
\<close>

datatype jsval =
    JUndefined
  | JNull
  | JBool bool
  | JNum rat
  | JNaN
  | JInfinity
  | JNegInfinity
  | JStr string
  | JArr "jsval list"
  | JObj "(string \<times> jsval) list"

text \<open>\<^verbatim>\<open>!v\<close> is false exactly for the truthy values.\<close>

fun truthy :: "jsval \<Rightarrow> bool" where
  "truthy JUndefined = False"
| "truthy JNull = False"
| "truthy (JBool b) = b"
| "truthy (JNum n) = (n \<noteq> 0)"
| "truthy JNaN = False"
| "truthy JInfinity = True"
| "truthy JNegInfinity = True"
| "truthy (JStr s) = (s \<noteq> [])"
| "truthy (JArr xs) = True"
| "truthy (JObj kvs) = True"

text \<open>\<^verbatim>\<open>v == null\<close> holds for \<^verbatim>\<open>null\<close> and \<^verbatim>\<open>undefined\<close> only.\<close>

fun nullish :: "jsval \<Rightarrow> bool" where
  "nullish JUndefined = True"
| "nullish JNull = True"
| "nullish v = False"

text \<open>
  \<^verbatim>\<open>v.k\<close> for a value that is not nullish and a key that no prototype defines (the
  handlers read \<^verbatim>\<open>userId\<close>, \<^verbatim>\<open>items\<close>, \<^verbatim>\<open>shippingAddress\<close>, \<^verbatim>\<open>status\<close>,
  \<^verbatim>\<open>productId\<close>, \<^verbatim>\<open>name\<close>, \<^verbatim>\<open>price\<close>, \<^verbatim>\<open>quantity\<close>, \<^verbatim>\<open>username\<close>,
  \<^verbatim>\<open>email\<close>, \<^verbatim>\<open>password\<close>): the stored value of an object, \<^verbatim>\<open>undefined\<close>
  otherwise. Reading a property of a nullish value throws; the callers test \<open>nullish\<close>
  first and model the throw there.
\<close>

fun getp :: "jsval \<Rightarrow> string \<Rightarrow> jsval" where
  "getp (JObj kvs) k = (case map_of kvs k of Some v \<Rightarrow> v | None \<Rightarrow> JUndefined)"
| "getp v k = JUndefined"

fun js_typeof :: "jsval \<Rightarrow> string" where
  "js_typeof JUndefined = ''undefined''"
| "js_typeof JNull = ''object''"
| "js_typeof (JBool b) = ''boolean''"
| "js_typeof (JNum n) = ''number''"
| "js_typeof JNaN = ''number''"
| "js_typeof JInfinity = ''number''"
| "js_typeof JNegInfinity = ''number''"
| "js_typeof (JStr s) = ''string''"
| "js_typeof (JArr xs) = ''object''"
| "js_typeof (JObj kvs) = ''object''"

text \<open>\<^verbatim>\<open>v < c\<close> for a value whose type is number; a comparison with \<^verbatim>\<open>NaN\<close> is false.\<close>

fun num_less :: "jsval \<Rightarrow> rat \<Rightarrow> bool" where
  "num_less (JNum n) c = (n < c)"
| "num_less JNegInfinity c = True"
| "num_less v c = False"

fun Number_isInteger :: "jsval \<Rightarrow> bool" where
  "Number_isInteger (JNum n) = (n = of_int \<lfloor>n\<rfloor>)"
| "Number_isInteger v = False"

text \<open>
  \<^verbatim>\<open>a === b\<close>. Arrays and objects are compared by reference; every array or object a
  handler compares comes from a different parsed request than the stored one, so the
  comparison of two of them is false.
\<close>

fun strict_eq :: "jsval \<Rightarrow> jsval \<Rightarrow> bool" where
  "strict_eq JUndefined JUndefined = True"
| "strict_eq JNull JNull = True"
| "strict_eq (JBool a) (JBool b) = (a = b)"
| "strict_eq (JNum a) (JNum b) = (a = b)"
| "strict_eq JInfinity JInfinity = True"
| "strict_eq JNegInfinity JNegInfinity = True"
| "strict_eq (JStr a) (JStr b) = (a = b)"
| "strict_eq a b = False"

fun join_strs :: "string \<Rightarrow> string list \<Rightarrow> string" where
  "join_strs sep [] = []"
| "join_strs sep [x] = x"
| "join_strs sep (x # y # ys) = x @ sep @ join_strs sep (y # ys)"

text \<open>The first element that satisfies \<open>P\<close> is replaced: the in-place update of the
  object that \<^verbatim>\<open>Array.prototype.find\<close> returned.\<close>

fun update_first :: "('a \<Rightarrow> bool) \<Rightarrow> ('a \<Rightarrow> 'a) \<Rightarrow> 'a list \<Rightarrow> 'a list" where
  "update_first P f [] = []"
| "update_first P f (x # xs) = (if P x then f x # xs else x # update_first P f xs)"


section \<open>Binary64 arithmetic\<close>

text \<open>
  JavaScript numbers are IEEE 754 binary64 doubles: 53 significant bits, exponents from
  \<open>-1074\<close> (the subnormal quantum) to \<open>971\<close>, results rounded to the nearest double
  with ties to the even significand, and overflow to an infinity.

  \<open>quantum_exp x\<close> is the exponent of the spacing of the doubles around \<open>x \<ge> 0\<close>: the
  least \<open>k\<close> from \<open>-1074\<close> with \<open>x < 2 ^ 53 * 2 powi k\<close>, and \<open>971\<close> when there is none.
\<close>

fun quantum_from :: "nat \<Rightarrow> int \<Rightarrow> rat \<Rightarrow> int" where
  "quantum_from 0 k x = k"
| "quantum_from (Suc n) k x = (if x < 2 ^ 53 * 2 powi k then k else quantum_from n (k + 1) x)"

definition quantum_exp :: "rat \<Rightarrow> int" where
  "quantum_exp x = quantum_from 2045 (- 1074) x"

definition round_half_even :: "rat \<Rightarrow> int" where
  "round_half_even y =
     (let f = \<lfloor>y\<rfloor>
      in if y - of_int f < 1 / 2 then f
         else if 1 / 2 < y - of_int f then f + 1
         else if even f then f else f + 1)"

text \<open>The double nearest to a real number: the result of every arithmetic operation, and
  of reading a decimal numeral with \<^verbatim>\<open>JSON.parse\<close>.\<close>

definition to_double :: "rat \<Rightarrow> jsval" where
  "to_double x =
     (let q = 2 powi quantum_exp \<bar>x\<bar>;
          m = of_int (round_half_even (\<bar>x\<bar> / q)) * q
      in if 2 ^ 1024 \<le> m then (if 0 < x then JInfinity else JNegInfinity)
         else JNum (if 0 \<le> x then m else - m))"

definition is_double :: "rat \<Rightarrow> bool" where
  "is_double x = (to_double x = JNum x)"

text \<open>The rational value of the double that a decimal numeral in a request denotes (for a
  numeral in the finite range).\<close>

definition nearest_double :: "rat \<Rightarrow> rat" where
  "nearest_double x = (case to_double x of JNum d \<Rightarrow> d | other \<Rightarrow> 0)"

text \<open>\<^verbatim>\<open>a + b\<close> on two numbers.\<close>

fun num_add :: "jsval \<Rightarrow> jsval \<Rightarrow> jsval" where
  "num_add (JNum a) (JNum b) = to_double (a + b)"
| "num_add (JNum a) JInfinity = JInfinity"
| "num_add (JNum a) JNegInfinity = JNegInfinity"
| "num_add JInfinity (JNum b) = JInfinity"
| "num_add JInfinity JInfinity = JInfinity"
| "num_add JNegInfinity (JNum b) = JNegInfinity"
| "num_add JNegInfinity JNegInfinity = JNegInfinity"
| "num_add a b = JNaN"

text \<open>\<^verbatim>\<open>a * b\<close> on two numbers (the handlers multiply numbers only).\<close>

fun js_times :: "jsval \<Rightarrow> jsval \<Rightarrow> jsval" where
  "js_times (JNum a) (JNum b) = to_double (a * b)"
| "js_times (JNum a) JInfinity =
     (if a = 0 then JNaN else if 0 < a then JInfinity else JNegInfinity)"
| "js_times (JNum a) JNegInfinity =
     (if a = 0 then JNaN else if 0 < a then JNegInfinity else JInfinity)"
| "js_times JInfinity (JNum b) =
     (if b = 0 then JNaN else if 0 < b then JInfinity else JNegInfinity)"
| "js_times JNegInfinity (JNum b) =
     (if b = 0 then JNaN else if 0 < b then JNegInfinity else JInfinity)"
| "js_times JInfinity JInfinity = JInfinity"
| "js_times JInfinity JNegInfinity = JNegInfinity"
| "js_times JNegInfinity JInfinity = JNegInfinity"
| "js_times JNegInfinity JNegInfinity = JInfinity"
| "js_times a b = JNaN"

text \<open>\<^verbatim>\<open>a / c\<close> for a number \<open>a\<close> and a positive finite constant \<open>c\<close>.\<close>

fun js_divide :: "jsval \<Rightarrow> rat \<Rightarrow> jsval" where
  "js_divide (JNum a) c = to_double (a / c)"
| "js_divide JInfinity c = JInfinity"
| "js_divide JNegInfinity c = JNegInfinity"
| "js_divide a c = JNaN"

text \<open>\<^verbatim>\<open>Math.round\<close> gives the nearest integer, a half going towards plus infinity; the
  result is a double because a double beyond \<open>2 ^ 52\<close> is an integer already.\<close>

fun Math_round :: "jsval \<Rightarrow> jsval" where
  "Math_round (JNum x) = JNum (of_int \<lfloor>x + 1 / 2\<rfloor>)"
| "Math_round JInfinity = JInfinity"
| "Math_round JNegInfinity = JNegInfinity"
| "Math_round v = JNaN"

text \<open>
  The values that \<^verbatim>\<open>JSON.parse\<close> produces: a request body holds neither
  \<^verbatim>\<open>undefined\<close> nor \<^verbatim>\<open>NaN\<close>, at any depth, and its finite numbers are doubles (a
  numeral beyond the finite range is read as an infinity).
\<close>

fun is_json :: "jsval \<Rightarrow> bool" where
  "is_json JUndefined = False"
| "is_json JNaN = False"
| "is_json (JNum x) = is_double x"
| "is_json (JArr xs) = (\<forall>x\<in>set xs. is_json x)"
| "is_json (JObj kvs) = (\<forall>kv\<in>set kvs. is_json (snd kv))"
| "is_json v = True"


section \<open>The order service\<close>

text \<open>
  \<^verbatim>\<open>const orders = []\<close> is the store. Logging, the Prometheus counter and the stubbed
  SNS publication do not touch it and are left out.
\<close>

record order =
  orderId :: string
  userId :: jsval
  items :: "jsval list"
  shippingAddress :: jsval
  total :: jsval
  status :: string
  createdAt :: string
  updatedAt :: string

type_synonym order_store = "order list"

datatype reply_body = ErrorBody string | OrderBody order | OrderListBody "order list"

type_synonym reply = "nat \<times> reply_body"

definition VALID_STATUSES :: "string list" where
  "VALID_STATUSES =
     [''pending'', ''confirmed'', ''processing'', ''shipped'', ''delivered'', ''cancelled'']"

text \<open>\<^verbatim>\<open>VALID_STATUSES.includes(status)\<close>: only a string can be found in the list.\<close>

fun includes_status :: "jsval \<Rightarrow> bool" where
  "includes_status (JStr s) = (s \<in> set VALID_STATUSES)"
| "includes_status v = False"

fun the_str :: "jsval \<Rightarrow> string" where
  "the_str (JStr s) = s"
| "the_str v = []"

subsection \<open>POST /api/orders\<close>

text \<open>The outcome of validating one element of \<^verbatim>\<open>items\<close>: accepted, rejected with the
  message of the 400 reply, or a \<^verbatim>\<open>TypeError\<close> (reading \<^verbatim>\<open>item.productId\<close> of
  \<^verbatim>\<open>null\<close>), which the handler's \<^verbatim>\<open>catch\<close> answers with 500.\<close>

datatype item_check = ItemOk | ItemRejected string | ItemThrows

definition check_item :: "jsval \<Rightarrow> item_check" where
  "check_item item =
     (if nullish item then ItemThrows
      else if \<not> truthy (getp item ''productId'') \<or> \<not> truthy (getp item ''name'')
              \<or> nullish (getp item ''price'') \<or> nullish (getp item ''quantity'')
        then ItemRejected ''Each item must have productId, name, price, and quantity''
      else if js_typeof (getp item ''price'') \<noteq> ''number'' \<or> num_less (getp item ''price'') 0
        then ItemRejected ''Item price must be a non-negative number''
      else if \<not> Number_isInteger (getp item ''quantity'') \<or> num_less (getp item ''quantity'') 1
        then ItemRejected ''Item quantity must be a positive integer''
      else ItemOk)"

text \<open>The \<^verbatim>\<open>for (const item of items)\<close> loop returns at the first item that fails.\<close>

fun check_items :: "jsval list \<Rightarrow> item_check" where
  "check_items [] = ItemOk"
| "check_items (item # rest) =
     (case check_item item of ItemOk \<Rightarrow> check_items rest | bad \<Rightarrow> bad)"

text \<open>\<^verbatim>\<open>item.price * item.quantity\<close>; both are numbers once \<open>check_items\<close> accepted.\<close>

definition line_total :: "jsval \<Rightarrow> jsval" where
  "line_total item = js_times (getp item ''price'') (getp item ''quantity'')"

text \<open>\<^verbatim>\<open>items.reduce((sum, item) => sum + item.price * item.quantity, 0)\<close>.\<close>

definition items_sum :: "jsval list \<Rightarrow> jsval" where
  "items_sum its = foldl (\<lambda>sum item. num_add sum (line_total item)) (JNum 0) its"

text \<open>\<^verbatim>\<open>Math.round(total * 100) / 100\<close>.\<close>

definition totalRounded :: "jsval list \<Rightarrow> jsval" where
  "totalRounded its = js_divide (Math_round (js_times (items_sum its) (JNum 100))) 100"

text \<open>What the handler takes from its environment: the fresh \<^verbatim>\<open>uuidv4()\<close> and the two
  readings of the clock.\<close>

record create_env =
  uuid :: string
  now_created :: string
  now_updated :: string

definition new_order :: "create_env \<Rightarrow> jsval \<Rightarrow> jsval list \<Rightarrow> order" where
  "new_order env body its =
     \<lparr> orderId = uuid env,
       userId = getp body ''userId'',
       items = its,
       shippingAddress = getp body ''shippingAddress'',
       total = totalRounded its,
       status = ''pending'',
       createdAt = now_created env,
       updatedAt = now_updated env \<rparr>"

definition internal_error :: reply where
  "internal_error = (500, ErrorBody ''Internal server error'')"

definition create_order :: "create_env \<Rightarrow> jsval \<Rightarrow> order_store \<Rightarrow> reply \<times> order_store" where
  "create_order env body orders =
     (if nullish body then (internal_error, orders)
      else if \<not> truthy (getp body ''userId'')
        then ((400, ErrorBody ''userId is required''), orders)
      else case getp body ''items'' of
        JArr its \<Rightarrow>
          if its = [] then ((400, ErrorBody ''items must be a non-empty array''), orders)
          else if \<not> truthy (getp body ''shippingAddress'')
            then ((400, ErrorBody ''shippingAddress is required''), orders)
          else (case check_items its of
                  ItemThrows \<Rightarrow> (internal_error, orders)
                | ItemRejected msg \<Rightarrow> ((400, ErrorBody msg), orders)
                | ItemOk \<Rightarrow>
                    (let order = new_order env body its
                     in ((201, OrderBody order), orders @ [order])))
      | other \<Rightarrow> ((400, ErrorBody ''items must be a non-empty array''), orders))"

subsection \<open>GET /api/orders/:orderId and GET /api/orders/user/:userId\<close>

definition get_order :: "string \<Rightarrow> order_store \<Rightarrow> reply \<times> order_store" where
  "get_order oid orders =
     (case find (\<lambda>r. orderId r = oid) orders of
        None \<Rightarrow> ((404, ErrorBody ''Order not found''), orders)
      | Some order \<Rightarrow> ((200, OrderBody order), orders))"

definition get_user_orders :: "string \<Rightarrow> order_store \<Rightarrow> reply \<times> order_store" where
  "get_user_orders uid orders =
     ((200, OrderListBody (filter (\<lambda>r. strict_eq (userId r) (JStr uid)) orders)), orders)"

subsection \<open>PUT /api/orders/:orderId/status\<close>

definition update_status :: "string \<Rightarrow> string \<Rightarrow> jsval \<Rightarrow> order_store \<Rightarrow> reply \<times> order_store" where
  "update_status now oid body orders =
     (if nullish body then (internal_error, orders)
      else if \<not> truthy (getp body ''status'')
        then ((400, ErrorBody ''status is required''), orders)
      else if \<not> includes_status (getp body ''status'')
        then ((400, ErrorBody (''Invalid status. Must be one of: ''
                                @ join_strs '', '' VALID_STATUSES)), orders)
      else case find (\<lambda>r. orderId r = oid) orders of
        None \<Rightarrow> ((404, ErrorBody ''Order not found''), orders)
      | Some order \<Rightarrow>
          (let order' = order\<lparr>status := the_str (getp body ''status''), updatedAt := now\<rparr>
           in ((200, OrderBody order'),
               update_first (\<lambda>r. orderId r = oid) (\<lambda>r. order') orders)))"

subsection \<open>POST /api/orders/:orderId/cancel\<close>

definition cancel_message :: "string \<Rightarrow> string" where
  "cancel_message st =
     ''Cannot cancel order with status '' @ [CHR 0x22] @ st @ [CHR 0x22]
       @ ''. Only pending or confirmed orders can be cancelled.''"

definition cancel_order :: "string \<Rightarrow> string \<Rightarrow> order_store \<Rightarrow> reply \<times> order_store" where
  "cancel_order now oid orders =
     (case find (\<lambda>r. orderId r = oid) orders of
        None \<Rightarrow> ((404, ErrorBody ''Order not found''), orders)
      | Some order \<Rightarrow>
          if status order \<noteq> ''pending'' \<and> status order \<noteq> ''confirmed''
          then ((400, ErrorBody (cancel_message (status order))), orders)
          else (let order' = order\<lparr>status := ''cancelled'', updatedAt := now\<rparr>
                in ((200, OrderBody order'),
                    update_first (\<lambda>r. orderId r = oid) (\<lambda>r. order') orders)))"

subsection \<open>Sequences of requests\<close>

datatype order_op =
    CreateOrder create_env jsval
  | GetOrder string
  | GetUserOrders string
  | UpdateStatus string string jsval
  | CancelOrder string string

fun apply_op :: "order_op \<Rightarrow> order_store \<Rightarrow> reply \<times> order_store" where
  "apply_op (CreateOrder env body) orders = create_order env body orders"
| "apply_op (GetOrder oid) orders = get_order oid orders"
| "apply_op (GetUserOrders uid) orders = get_user_orders uid orders"
| "apply_op (UpdateStatus now oid body) orders = update_status now oid body orders"
| "apply_op (CancelOrder now oid) orders = cancel_order now oid orders"

fun run_ops :: "order_op list \<Rightarrow> order_store \<Rightarrow> order_store" where
  "run_ops [] orders = orders"
| "run_ops (op # ops) orders = run_ops ops (snd (apply_op op orders))"


section \<open>Conversions of the JavaScript runtime\<close>

text \<open>
  The cart service converts with \<^verbatim>\<open>Number(v)\<close> and adds with \<^verbatim>\<open>+=\<close>. Both follow
  ECMAScript: an array or object is first turned into a string, \<^verbatim>\<open>+\<close> concatenates as
  soon as one operand is a string, and adds numerically otherwise. What the runtime does
  inside a conversion (parsing a numeric string, printing a number, printing an array or
  object) is taken as given.
\<close>

record js_runtime =
  StringToNumber :: "string \<Rightarrow> jsval"
  NumberToString :: "rat \<Rightarrow> string"
  ObjectToString :: "jsval \<Rightarrow> string"

fun to_primitive :: "js_runtime \<Rightarrow> jsval \<Rightarrow> jsval" where
  "to_primitive rt (JArr xs) = JStr (ObjectToString rt (JArr xs))"
| "to_primitive rt (JObj kvs) = JStr (ObjectToString rt (JObj kvs))"
| "to_primitive rt v = v"

fun prim_to_number :: "js_runtime \<Rightarrow> jsval \<Rightarrow> jsval" where
  "prim_to_number rt JUndefined = JNaN"
| "prim_to_number rt JNull = JNum 0"
| "prim_to_number rt (JBool b) = JNum (if b then 1 else 0)"
| "prim_to_number rt (JNum n) = JNum n"
| "prim_to_number rt JInfinity = JInfinity"
| "prim_to_number rt JNegInfinity = JNegInfinity"
| "prim_to_number rt (JStr s) = StringToNumber rt s"
| "prim_to_number rt v = JNaN"

fun prim_to_string :: "js_runtime \<Rightarrow> jsval \<Rightarrow> string" where
  "prim_to_string rt JUndefined = ''undefined''"
| "prim_to_string rt JNull = ''null''"
| "prim_to_string rt (JBool b) = (if b then ''true'' else ''false'')"
| "prim_to_string rt (JNum n) = NumberToString rt n"
| "prim_to_string rt JNaN = ''NaN''"
| "prim_to_string rt JInfinity = ''Infinity''"
| "prim_to_string rt JNegInfinity = ''-Infinity''"
| "prim_to_string rt (JStr s) = s"
| "prim_to_string rt v = ObjectToString rt v"

definition js_Number :: "js_runtime \<Rightarrow> jsval \<Rightarrow> jsval" where
  "js_Number rt v = prim_to_number rt (to_primitive rt v)"

fun is_string :: "jsval \<Rightarrow> bool" where
  "is_string (JStr s) = True"
| "is_string v = False"

definition js_plus :: "js_runtime \<Rightarrow> jsval \<Rightarrow> jsval \<Rightarrow> jsval" where
  "js_plus rt a b =
     (let pa = to_primitive rt a; pb = to_primitive rt b
      in if is_string pa \<or> is_string pb
         then JStr (prim_to_string rt pa @ prim_to_string rt pb)
         else num_add (prim_to_number rt pa) (prim_to_number rt pb))"


section \<open>The cart service\<close>

text \<open>\<^verbatim>\<open>const carts = new Map()\<close> maps a user id (a route parameter, a string) to the
  array of that user's entries.\<close>

record cart_item =
  productId :: jsval
  name :: jsval
  price :: jsval
  quantity :: jsval

type_synonym cart_store = "string \<rightharpoonup> cart_item list"

datatype cart_body = CartError string | CartBody string "cart_item list"

type_synonym cart_reply = "nat \<times> cart_body"

text \<open>\<^verbatim>\<open>getCart\<close> creates the empty cart of a user it has not seen.\<close>

definition getCart :: "string \<Rightarrow> cart_store \<Rightarrow> cart_item list \<times> cart_store" where
  "getCart uid carts =
     (case carts uid of
        None \<Rightarrow> ([], carts(uid \<mapsto> []))
      | Some its \<Rightarrow> (its, carts))"

definition get_cart :: "string \<Rightarrow> cart_store \<Rightarrow> cart_reply \<times> cart_store" where
  "get_cart uid carts =
     (let (its, carts1) = getCart uid carts in ((200, CartBody uid its), carts1))"

text \<open>The cart handlers have no \<^verbatim>\<open>try\<close>: destructuring a nullish body throws, and the
  global error handler answers 500.\<close>

definition cart_internal_error :: cart_reply where
  "cart_internal_error = (500, CartError ''Internal server error'')"

definition add_item :: "js_runtime \<Rightarrow> string \<Rightarrow> jsval \<Rightarrow> cart_store \<Rightarrow> cart_reply \<times> cart_store" where
  "add_item rt uid body carts =
     (if nullish body then (cart_internal_error, carts)
      else if \<not> truthy (getp body ''productId'') \<or> \<not> truthy (getp body ''name'')
              \<or> nullish (getp body ''price'') \<or> nullish (getp body ''quantity'')
        then ((400, CartError ''Missing required fields: productId, name, price, quantity''), carts)
      else
        (let (its, carts1) = getCart uid carts;
             same = (\<lambda>i. strict_eq (productId i) (getp body ''productId''))
         in case find same its of
              Some existing \<Rightarrow>
                (let its' = update_first same
                       (\<lambda>i. i\<lparr>quantity := js_plus rt (quantity i) (getp body ''quantity'')\<rparr>) its
                 in ((200, CartBody uid its'), carts1(uid \<mapsto> its')))
            | None \<Rightarrow>
                (let its' = its @ [\<lparr> productId = getp body ''productId'',
                                     name = getp body ''name'',
                                     price = js_Number rt (getp body ''price''),
                                     quantity = js_Number rt (getp body ''quantity'') \<rparr>]
                 in ((201, CartBody uid its'), carts1(uid \<mapsto> its')))))"

definition update_item :: "js_runtime \<Rightarrow> string \<Rightarrow> string \<Rightarrow> jsval \<Rightarrow> cart_store \<Rightarrow> cart_reply \<times> cart_store" where
  "update_item rt uid pid body carts =
     (if nullish body then (cart_internal_error, carts)
      else if nullish (getp body ''quantity'')
        then ((400, CartError ''Missing required field: quantity''), carts)
      else
        (let (its, carts1) = getCart uid carts;
             same = (\<lambda>i. strict_eq (productId i) (JStr pid))
         in case find same its of
              None \<Rightarrow> ((404, CartError ''Item not found in cart''), carts1)
            | Some item \<Rightarrow>
                (let its' = update_first same
                       (\<lambda>i. i\<lparr>quantity := js_Number rt (getp body ''quantity'')\<rparr>) its
                 in ((200, CartBody uid its'), carts1(uid \<mapsto> its')))))"

text \<open>\<^verbatim>\<open>items.splice(index, 1)\<close> at the index \<^verbatim>\<open>findIndex\<close> returned.\<close>

fun remove_first :: "('a \<Rightarrow> bool) \<Rightarrow> 'a list \<Rightarrow> 'a list" where
  "remove_first P [] = []"
| "remove_first P (x # xs) = (if P x then xs else x # remove_first P xs)"

definition remove_item :: "string \<Rightarrow> string \<Rightarrow> cart_store \<Rightarrow> cart_reply \<times> cart_store" where
  "remove_item uid pid carts =
     (let (its, carts1) = getCart uid carts;
          same = (\<lambda>i. strict_eq (productId i) (JStr pid))
      in case find same its of
           None \<Rightarrow> ((404, CartError ''Item not found in cart''), carts1)
         | Some item \<Rightarrow>
             (let its' = remove_first same its
              in ((200, CartBody uid its'), carts1(uid \<mapsto> its'))))"

definition clear_cart :: "string \<Rightarrow> cart_store \<Rightarrow> cart_reply \<times> cart_store" where
  "clear_cart uid carts = ((200, CartBody uid []), carts(uid := None))"

datatype cart_op =
    GetCart string
  | AddItem string jsval
  | UpdateItem string string jsval
  | RemoveItem string string
  | ClearCart string

fun apply_cart_op :: "js_runtime \<Rightarrow> cart_op \<Rightarrow> cart_store \<Rightarrow> cart_reply \<times> cart_store" where
  "apply_cart_op rt (GetCart uid) carts = get_cart uid carts"
| "apply_cart_op rt (AddItem uid body) carts = add_item rt uid body carts"
| "apply_cart_op rt (UpdateItem uid pid body) carts = update_item rt uid pid body carts"
| "apply_cart_op rt (RemoveItem uid pid) carts = remove_item uid pid carts"
| "apply_cart_op rt (ClearCart uid) carts = clear_cart uid carts"

fun run_cart_ops :: "js_runtime \<Rightarrow> cart_op list \<Rightarrow> cart_store \<Rightarrow> cart_store" where
  "run_cart_ops rt [] carts = carts"
| "run_cart_ops rt (op # ops) carts = run_cart_ops rt ops (snd (apply_cart_op rt op carts))"


section \<open>The user service\<close>

text \<open>\<^verbatim>\<open>const users = []\<close> and \<^verbatim>\<open>let nextId = 1\<close> are the state. The stored
  \<^verbatim>\<open>password\<close> is the bcrypt hash.\<close>

record user =
  user_id :: int
  username :: jsval
  email :: jsval
  password :: string
  user_createdAt :: string

text \<open>\<^verbatim>\<open>const { password, ...safeUser } = user\<close>: every field but the password.\<close>

record safe_user =
  safe_id :: int
  safe_username :: jsval
  safe_email :: jsval
  safe_createdAt :: string

definition safeUser :: "user \<Rightarrow> safe_user" where
  "safeUser u =
     \<lparr> safe_id = user_id u, safe_username = username u, safe_email = email u,
       safe_createdAt = user_createdAt u \<rparr>"

record user_state =
  users :: "user list"
  nextId :: int

datatype user_body = UserError string | UserBody safe_user | UserListBody "safe_user list"

type_synonym user_reply = "nat \<times> user_body"

text \<open>
  What \<^verbatim>\<open>POST /api/users/register\<close> takes from outside: \<^verbatim>\<open>bcrypt.hash(password, 10)\<close>,
  which gives the hash or rejects with an error message; the clock; and the message of the
  \<^verbatim>\<open>TypeError\<close> that destructuring a nullish body throws.
\<close>

record register_env =
  bcrypt_hash :: "jsval \<Rightarrow> string + string"
  register_now :: string
  destructure_message :: string

text \<open>The global error handler: \<^verbatim>\<open>err.status || 500\<close> and
  \<^verbatim>\<open>err.message || 'Internal server error'\<close>; the errors thrown here carry no status.\<close>

definition error_reply :: "string \<Rightarrow> user_reply" where
  "error_reply msg = (500, UserError (if msg = [] then ''Internal server error'' else msg))"

definition register_user :: "register_env \<Rightarrow> jsval \<Rightarrow> user_state \<Rightarrow> user_reply \<times> user_state" where
  "register_user env body st =
     (if nullish body then (error_reply (destructure_message env), st)
      else if \<not> truthy (getp body ''username'') \<or> \<not> truthy (getp body ''email'')
              \<or> \<not> truthy (getp body ''password'')
        then ((400, UserError ''username, email, and password are required''), st)
      else case find (\<lambda>u. strict_eq (email u) (getp body ''email'')) (users st) of
        Some exists \<Rightarrow> ((409, UserError ''A user with that email already exists''), st)
      | None \<Rightarrow>
          (case bcrypt_hash env (getp body ''password'') of
             Inl msg \<Rightarrow> (error_reply msg, st)
           | Inr hashedPassword \<Rightarrow>
               (let u = \<lparr> user_id = nextId st,
                          username = getp body ''username'',
                          email = getp body ''email'',
                          password = hashedPassword,
                          user_createdAt = register_now env \<rparr>
                in ((201, UserBody (safeUser u)),
                    st\<lparr>users := users st @ [u], nextId := nextId st + 1\<rparr>))))"

text \<open>
  \<^verbatim>\<open>parseInt(s, 10)\<close>: leading white space is skipped, then an optional sign, then the
  longest run of decimal digits is read and rounded to a double; no digit gives
  \<^verbatim>\<open>NaN\<close>. White space is what ECMAScript calls \<^verbatim>\<open>WhiteSpace\<close> or
  \<^verbatim>\<open>LineTerminator\<close>: six ASCII characters, U+00A0, U+1680, U+2000 to U+200A, U+2028,
  U+2029, U+202F, U+205F, U+3000 and U+FEFF, here in their UTF-8 encodings. (Beyond twenty
  digits ECMAScript lets an implementation read the further digits as zeros; the model
  reads them all.)
\<close>

definition ascii_space :: "char \<Rightarrow> bool" where
  "ascii_space c = (c \<in> set [CHR 0x09, CHR 0x0A, CHR 0x0B, CHR 0x0C, CHR 0x0D, CHR 0x20])"

definition unicode_spaces :: "string list" where
  "unicode_spaces =
     [[CHR 0xC2, CHR 0xA0],
      [CHR 0xE1, CHR 0x9A, CHR 0x80],
      [CHR 0xE2, CHR 0x80, CHR 0x80], [CHR 0xE2, CHR 0x80, CHR 0x81],
      [CHR 0xE2, CHR 0x80, CHR 0x82], [CHR 0xE2, CHR 0x80, CHR 0x83],
      [CHR 0xE2, CHR 0x80, CHR 0x84], [CHR 0xE2, CHR 0x80, CHR 0x85],
      [CHR 0xE2, CHR 0x80, CHR 0x86], [CHR 0xE2, CHR 0x80, CHR 0x87],
      [CHR 0xE2, CHR 0x80, CHR 0x88], [CHR 0xE2, CHR 0x80, CHR 0x89],
      [CHR 0xE2, CHR 0x80, CHR 0x8A],
      [CHR 0xE2, CHR 0x80, CHR 0xA8], [CHR 0xE2, CHR 0x80, CHR 0xA9],
      [CHR 0xE2, CHR 0x80, CHR 0xAF],
      [CHR 0xE2, CHR 0x81, CHR 0x9F],
      [CHR 0xE3, CHR 0x80, CHR 0x80],
      [CHR 0xEF, CHR 0xBB, CHR 0xBF]]"

fun skip_space :: "string \<Rightarrow> string" where
  "skip_space [] = []"
| "skip_space (c # r) =
     (if ascii_space c then skip_space r
      else if c # take 1 r \<in> set unicode_spaces then skip_space (drop 1 r)
      else if c # take 2 r \<in> set unicode_spaces then skip_space (drop 2 r)
      else c # r)"

definition is_digit :: "char \<Rightarrow> bool" where
  "is_digit c = (48 \<le> (of_char c :: nat) \<and> (of_char c :: nat) \<le> 57)"

definition digits_value :: "string \<Rightarrow> int" where
  "digits_value ds = foldl (\<lambda>acc c. acc * 10 + (int (of_char c) - 48)) 0 ds"

definition parseInt10 :: "string \<Rightarrow> jsval" where
  "parseInt10 s =
     (let s1 = skip_space s;
          neg = (s1 \<noteq> [] \<and> hd s1 = CHR ''-'');
          s2 = (if s1 \<noteq> [] \<and> (hd s1 = CHR ''-'' \<or> hd s1 = CHR ''+'') then tl s1 else s1);
          ds = takeWhile is_digit s2
      in if ds = [] then JNaN
         else to_double (of_int (if neg then - digits_value ds else digits_value ds)))"

text \<open>\<^verbatim>\<open>users.find((u) => u.id === id)\<close> with \<^verbatim>\<open>id = parseInt(req.params.id, 10)\<close>.\<close>

definition get_user :: "string \<Rightarrow> user_state \<Rightarrow> user_reply \<times> user_state" where
  "get_user param st =
     (case find (\<lambda>u. strict_eq (parseInt10 param) (JNum (of_int (user_id u)))) (users st) of
        None \<Rightarrow> ((404, UserError ''User not found''), st)
      | Some u \<Rightarrow> ((200, UserBody (safeUser u)), st))"

definition list_users :: "user_state \<Rightarrow> user_reply \<times> user_state" where
  "list_users st = ((200, UserListBody (map safeUser (users st))), st)"


section \<open>The ingestion queue consumer\<close>

text \<open>
  Modelled from the spec: the repository configures the queue
  (\<^verbatim>\<open>RedrivePolicy: maxReceiveCount: 3\<close>) and leaves receiving, acknowledging and
  quarantining to the managed queue; the consumer below follows sections 4.1 and 4.5 of the
  specification. One message and the order it names are tracked. Receiving, the
  orchestrator's writes to the order, the acknowledgement and the expiry of the visibility
  timeout are separate events, in any order: a crash between a write and the
  acknowledgement is an expiry with no acknowledgement before it, and a stale or duplicate
  delivery is a receive of a message whose order is already terminal.
\<close>

text \<open>Modelled from the spec: the statuses of section 3, of which \<^verbatim>\<open>COMPLETED\<close>,
  \<^verbatim>\<open>FAILED\<close> and \<^verbatim>\<open>CANCELLED\<close> are terminal.\<close>

datatype spec_status = PENDING | PROCESSING | COMPLETED | FAILED | CANCELLED

fun terminal :: "spec_status \<Rightarrow> bool" where
  "terminal COMPLETED = True"
| "terminal FAILED = True"
| "terminal CANCELLED = True"
| "terminal s = False"

text \<open>Modelled from the spec: where the message is (visible in the queue, received and
  hidden for the visibility timeout, acknowledged and deleted, or in the dead-letter
  quarantine), how often it was received, and the status of its order in the order
  store.\<close>

datatype message_place = Queued | InFlight | Deleted | Quarantined

record consumer_state =
  receiveCount :: nat
  place :: message_place
  order_status :: spec_status

text \<open>Modelled from the spec: what can happen to the message. \<open>Process p\<close> is a write
  of the orchestrator, which re-reads the order and moves its status from \<open>s\<close> to
  \<open>p s\<close>.\<close>

datatype consumer_event =
    Receive
  | Process "spec_status \<Rightarrow> spec_status"
  | Acknowledge
  | VisibilityTimeout

text \<open>
  Modelled from the spec:
  \<^item> a receive of a visible message counts; beyond \<open>maxReceiveCount\<close> receives, a message
    whose order has not reached a terminal status goes to the quarantine instead of to the
    orchestrator, and the order is not touched; any other receive hides the message and
    hands it over;
  \<^item> the orchestrator writes only while it holds the message, and never out of a terminal
    status;
  \<^item> the message is acknowledged (deleted) only once the order's terminal status is in the
    store;
  \<^item> when the visibility timeout expires an unacknowledged message is visible again.
\<close>

fun consumer_step :: "nat \<Rightarrow> consumer_event \<Rightarrow> consumer_state \<Rightarrow> consumer_state" where
  "consumer_step maxReceiveCount Receive st =
     (if place st \<noteq> Queued then st
      else if maxReceiveCount < receiveCount st + 1 \<and> \<not> terminal (order_status st)
        then st\<lparr>receiveCount := receiveCount st + 1, place := Quarantined\<rparr>
      else st\<lparr>receiveCount := receiveCount st + 1, place := InFlight\<rparr>)"
| "consumer_step maxReceiveCount (Process p) st =
     (if place st = InFlight \<and> \<not> terminal (order_status st)
      then st\<lparr>order_status := p (order_status st)\<rparr>
      else st)"
| "consumer_step maxReceiveCount Acknowledge st =
     (if place st = InFlight \<and> terminal (order_status st)
      then st\<lparr>place := Deleted\<rparr>
      else st)"
| "consumer_step maxReceiveCount VisibilityTimeout st =
     (if place st = InFlight then st\<lparr>place := Queued\<rparr> else st)"

text \<open>Modelled from the spec: a sequence of events.\<close>

fun run_consumer :: "nat \<Rightarrow> consumer_event list \<Rightarrow> consumer_state \<Rightarrow> consumer_state" where
  "run_consumer maxReceiveCount [] st = st"
| "run_consumer maxReceiveCount (ev # evs) st =
     run_consumer maxReceiveCount evs (consumer_step maxReceiveCount ev st)"

text \<open>Modelled from the spec: a freshly enqueued message, its order in status \<open>s\<close>.\<close>

definition enqueued :: "spec_status \<Rightarrow> consumer_state" where
  "enqueued s = \<lparr> receiveCount = 0, place = Queued, order_status = s \<rparr>"

text \<open>The repository's setting, \<^verbatim>\<open>maxReceiveCount: 3\<close>.\<close>

definition default_maxReceiveCount :: nat where
  "default_maxReceiveCount = 3"

text \<open>A delivery during which the orchestrator crashes before it writes: the message is
  received and reappears after the timeout. And a delivery that completes the order and
  crashes before the acknowledgement.\<close>

definition crashed_delivery :: "consumer_event list" where
  "crashed_delivery = [Receive, VisibilityTimeout]"

definition completed_unacknowledged :: "consumer_event list" where
  "completed_unacknowledged = [Receive, Process (\<lambda>s. COMPLETED), VisibilityTimeout]"


section \<open>The retry policy of a capability step\<close>

text \<open>
  Modelled from the spec: the repository declares the policy
  (\<^verbatim>\<open>"IntervalSeconds": 2, "MaxAttempts": 3, "BackoffRate": 2.0\<close>) and the managed
  workflow runtime applies it; the loop below follows section 4.2 of the specification.
  An invocation succeeds, fails permanently, or fails transiently; only a transient failure
  is retried, after a wait, while retries remain.
\<close>

text \<open>Modelled from the spec: the steps that invoke a capability, the three outcomes of an
  invocation (section 4.3), and how a step ends: success, the failure edge after a
  permanent decline, or the failure edge after the retries ran out.\<close>

datatype capability_step = ReservePayment | ReserveInventory | CompensatePayment

datatype invocation = Success | TransientFailure | PermanentFailure

datatype step_result = Succeeded | Declined | RetriesExhausted

record retry_policy =
  intervalSeconds :: rat
  maxAttempts :: nat
  backoffRate :: rat

text \<open>The policy the repository declares.\<close>

definition default_policy :: retry_policy where
  "default_policy = \<lparr> intervalSeconds = 2, maxAttempts = 3, backoffRate = 2 \<rparr>"

text \<open>Modelled from the spec: every capability step carries the same policy.\<close>

definition step_policy :: "capability_step \<Rightarrow> retry_policy" where
  "step_policy step = default_policy"

text \<open>Modelled from the spec: the wait before retry \<open>n\<close>, the first retry being retry 0.\<close>

definition retry_delay :: "retry_policy \<Rightarrow> nat \<Rightarrow> rat" where
  "retry_delay pol n = intervalSeconds pol * backoffRate pol ^ n"

text \<open>Modelled from the spec: \<open>attempt pol cap left n\<close> makes invocation \<open>n\<close> of the
  capability \<open>cap\<close> with \<open>left\<close> retries remaining, and returns the result of the step
  with the waits it made, in order.\<close>

fun attempt :: "retry_policy \<Rightarrow> (nat \<Rightarrow> invocation) \<Rightarrow> nat \<Rightarrow> nat \<Rightarrow> step_result \<times> rat list" where
  "attempt pol cap 0 n =
     (case cap n of
        Success \<Rightarrow> (Succeeded, [])
      | PermanentFailure \<Rightarrow> (Declined, [])
      | TransientFailure \<Rightarrow> (RetriesExhausted, []))"
| "attempt pol cap (Suc left) n =
     (case cap n of
        Success \<Rightarrow> (Succeeded, [])
      | PermanentFailure \<Rightarrow> (Declined, [])
      | TransientFailure \<Rightarrow>
          (let (r, waits) = attempt pol cap left (Suc n)
           in (r, retry_delay pol n # waits)))"

text \<open>Modelled from the spec: a step starts with invocation 0 and \<open>maxAttempts\<close> retries
  left.\<close>

definition run_step :: "retry_policy \<Rightarrow> (nat \<Rightarrow> invocation) \<Rightarrow> step_result \<times> rat list" where
  "run_step pol cap = attempt pol cap (maxAttempts pol) 0"

text \<open>A capability that fails transiently on its first \<open>k\<close> invocations and then
  succeeds, and one that never stops failing transiently.\<close>

definition succeeds_after :: "nat \<Rightarrow> nat \<Rightarrow> invocation" where
  "succeeds_after k n = (if n < k then TransientFailure else Success)"

definition always_transient :: "nat \<Rightarrow> invocation" where
  "always_transient n = TransientFailure"


section \<open>Statements about the order store, and example requests\<close>

text \<open>The statuses the specification calls terminal, in the order service's spelling
  (\<^verbatim>\<open>COMPLETED\<close> is \<^verbatim>\<open>delivered\<close>, \<^verbatim>\<open>CANCELLED\<close> is \<^verbatim>\<open>cancelled\<close>;
  \<^verbatim>\<open>FAILED\<close> has no counterpart in \<open>VALID_STATUSES\<close>).\<close>

definition terminal_status :: "string \<Rightarrow> bool" where
  "terminal_status s = (s = ''delivered'' \<or> s = ''failed'' \<or> s = ''cancelled'')"

text \<open>A valid order-creation request, in the words of the claims: a user id, a shipping
  address, and a non-empty array of items, each with a product id, a name, a price that is
  a non-negative number and a quantity that is a positive integer.\<close>

fun valid_price :: "jsval \<Rightarrow> bool" where
  "valid_price (JNum p) = (0 \<le> p)"
| "valid_price JInfinity = True"
| "valid_price v = False"

fun valid_quantity :: "jsval \<Rightarrow> bool" where
  "valid_quantity (JNum q) = (q = of_int \<lfloor>q\<rfloor> \<and> 1 \<le> q)"
| "valid_quantity v = False"

definition valid_item :: "jsval \<Rightarrow> bool" where
  "valid_item item =
     (\<not> nullish item \<and> truthy (getp item ''productId'') \<and> truthy (getp item ''name'')
      \<and> valid_price (getp item ''price'') \<and> valid_quantity (getp item ''quantity''))"

definition valid_order_request :: "jsval \<Rightarrow> bool" where
  "valid_order_request body =
     (\<not> nullish body \<and> truthy (getp body ''userId'')
      \<and> truthy (getp body ''shippingAddress'')
      \<and> (case getp body ''items'' of
            JArr its \<Rightarrow> its \<noteq> [] \<and> list_all valid_item its
          | other \<Rightarrow> False))"

text \<open>The sum over all items of quantity times unit price, in exact arithmetic.\<close>

definition exact_line :: "jsval \<Rightarrow> rat" where
  "exact_line item =
     (case (getp item ''price'', getp item ''quantity'') of
        (JNum p, JNum q) \<Rightarrow> q * p
      | other \<Rightarrow> 0)"

definition exact_sum :: "jsval list \<Rightarrow> rat" where
  "exact_sum its = sum_list (map exact_line its)"

text \<open>A price that is a multiple of 0.25.\<close>

fun quarter_price :: "jsval \<Rightarrow> bool" where
  "quarter_price (JNum p) = (4 * p = of_int \<lfloor>4 * p\<rfloor>)"
| "quarter_price v = False"

text \<open>The fields of an order that no handler writes after creation.\<close>

definition order_core :: "order \<Rightarrow> string \<times> jsval \<times> jsval list \<times> jsval \<times> jsval \<times> string" where
  "order_core r = (orderId r, userId r, items r, shippingAddress r, total r, createdAt r)"

text \<open>An order with the two fields blanked that the status handlers write.\<close>

definition erase_status :: "order \<Rightarrow> order" where
  "erase_status r = r\<lparr>status := [], updatedAt := []\<rparr>"

definition item_json :: "string \<Rightarrow> string \<Rightarrow> rat \<Rightarrow> rat \<Rightarrow> jsval" where
  "item_json pid nm p q =
     JObj [(''productId'', JStr pid), (''name'', JStr nm), (''price'', JNum p),
           (''quantity'', JNum q)]"

definition order_body :: "jsval list \<Rightarrow> jsval" where
  "order_body its =
     JObj [(''userId'', JStr ''user-1''), (''items'', JArr its),
           (''shippingAddress'', JStr ''1 Main Street''),
           (''idempotencyKey'', JStr ''key-1'')]"

text \<open>Scenario A of the specification: two units at 29.99 and one at 49.99.\<close>

definition scenarioA_items :: "jsval list" where
  "scenarioA_items =
     [item_json ''p1'' ''Widget'' (nearest_double (2999 / 100)) 2,
      item_json ''p2'' ''Gadget'' (nearest_double (4999 / 100)) 1]"

definition scenarioA_body :: jsval where
  "scenarioA_body = order_body scenarioA_items"

definition env1 :: create_env where
  "env1 = \<lparr> uuid = ''order-1'', now_created = ''t0'', now_updated = ''t0'' \<rparr>"

definition env2 :: create_env where
  "env2 = \<lparr> uuid = ''order-2'', now_created = ''t1'', now_updated = ''t1'' \<rparr>"

definition status_body :: "string \<Rightarrow> jsval" where
  "status_body s = JObj [(''status'', JStr s)]"

text \<open>The store after the scenario A order was created, and after its status was then
  set to a given value.\<close>

definition created_store :: order_store where
  "created_store = run_ops [CreateOrder env1 scenarioA_body] []"

definition store_with_status :: "string \<Rightarrow> order_store" where
  "store_with_status s =
     run_ops [CreateOrder env1 scenarioA_body,
              UpdateStatus ''t1'' ''order-1'' (status_body s)] []"

text \<open>The order that the scenario A request creates.\<close>

definition scenarioA_order :: order where
  "scenarioA_order =
     \<lparr> orderId = ''order-1'',
       userId = JStr ''user-1'',
       items = scenarioA_items,
       shippingAddress = JStr ''1 Main Street'',
       total = to_double (10997 / 100),
       status = ''pending'',
       createdAt = ''t0'',
       updatedAt = ''t0'' \<rparr>"

text \<open>Further requests: two units at 12.25 and one unit at 5; one unit at 0.0625; and the
  items one unit at 0.005 and one unit at 1.\<close>

definition quarters_body :: jsval where
  "quarters_body =
     order_body [item_json ''p1'' ''Widget'' (49 / 4) 2, item_json ''p2'' ''Gadget'' 5 1]"

definition sixteenth_body :: jsval where
  "sixteenth_body = order_body [item_json ''p1'' ''Widget'' (1 / 16) 1]"

definition half_cent_items :: "jsval list" where
  "half_cent_items =
     [item_json ''p1'' ''Widget'' (nearest_double (1 / 200)) 1,
      item_json ''p2'' ''Gadget'' 1 1]"


section \<open>Statements about the cart and the users, and example requests\<close>

text \<open>No two entries of a cart carry product ids that \<^verbatim>\<open>===\<close> identifies.\<close>

fun distinct_ids :: "cart_item list \<Rightarrow> bool" where
  "distinct_ids [] = True"
| "distinct_ids (x # xs) =
     (list_all (\<lambda>y. \<not> strict_eq (productId x) (productId y)) xs \<and> distinct_ids xs)"

definition carts_distinct :: "cart_store \<Rightarrow> bool" where
  "carts_distinct carts = (\<forall>uid its. carts uid = Some its \<longrightarrow> distinct_ids its)"

text \<open>A request to add the product \<^verbatim>\<open>p1\<close> at the price 9.99, with the quantity left
  open, and a request whose product id is the array \<^verbatim>\<open>[1]\<close>.\<close>

definition cart_request :: "jsval \<Rightarrow> jsval" where
  "cart_request qty =
     JObj [(''productId'', JStr ''p1''), (''name'', JStr ''Widget''),
           (''price'', JNum (nearest_double (999 / 100))), (''quantity'', qty)]"

definition array_id_request :: jsval where
  "array_id_request =
     JObj [(''productId'', JArr [JNum 1]), (''name'', JStr ''Widget''),
           (''price'', JNum 1), (''quantity'', JNum 1)]"

text \<open>Two states of the user service differ at most in stored password hashes.\<close>

definition differ_only_in_passwords :: "user_state \<Rightarrow> user_state \<Rightarrow> bool" where
  "differ_only_in_passwords s1 s2 =
     (nextId s1 = nextId s2 \<and> map safeUser (users s1) = map safeUser (users s2))"

definition alice :: "string \<Rightarrow> user" where
  "alice h =
     \<lparr> user_id = 1, username = JStr ''alice'', email = JStr ''alice@example.com'',
       password = h, user_createdAt = ''t0'' \<rparr>"

definition state_with_hash :: "string \<Rightarrow> user_state" where
  "state_with_hash h = \<lparr> users = [alice h], nextId = 2 \<rparr>"

definition bob_request :: jsval where
  "bob_request =
     JObj [(''username'', JStr ''bob''), (''email'', JStr ''bob@example.com''),
           (''password'', JStr ''secret'')]"

definition register_env1 :: register_env where
  "register_env1 =
     \<lparr> bcrypt_hash = (\<lambda>v. case v of JStr s \<Rightarrow> Inr (''hash-of-'' @ s)
                              | other \<Rightarrow> Inl ''Illegal arguments''),
       register_now = ''t1'',
       destructure_message = ''Cannot destructure property'' \<rparr>"


section \<open>Helper facts about lists\<close>

lemma find_update_first:
  "find P xs = Some x \<Longrightarrow> P y \<Longrightarrow> find P (update_first P (\<lambda>r. y) xs) = Some y"
  by (induction xs) (auto split: if_splits)

lemma length_update_first: "length (update_first P f xs) = length xs"
  by (induction xs) auto

lemma find_Some_sat: "find P xs = Some x \<Longrightarrow> P x \<and> x \<in> set xs"
  by (induction xs) (auto split: if_splits)

lemma list_all_update_first:
  "list_all Q xs \<Longrightarrow> Q y \<Longrightarrow> list_all Q (update_first P (\<lambda>r. y) xs)"
  by (induction xs) auto

section \<open>Rounding to the nearest double\<close>

lemma quantum_from_eq:
  "k \<le> k0 \<Longrightarrow> k0 \<le> k + int n \<Longrightarrow> x < 2 ^ 53 * 2 powi k0 \<or> k0 = k + int n
   \<Longrightarrow> (\<forall>j. k \<le> j \<and> j < k0 \<longrightarrow> \<not> x < 2 ^ 53 * 2 powi j)
   \<Longrightarrow> quantum_from n k x = k0"
proof (induction n arbitrary: k)
  case 0
  then show ?case by simp
next
  case (Suc n)
  show ?case
  proof (cases "k = k0")
    case True
    then show ?thesis using Suc.prems by auto
  next
    case False
    then have lt: "k < k0" using Suc.prems(1) by simp
    then have "\<not> x < 2 ^ 53 * 2 powi k" using Suc.prems(4) by simp
    moreover have "quantum_from n (k + 1) x = k0"
      using Suc.prems lt by (intro Suc.IH) auto
    ultimately show ?thesis by simp
  qed
qed

lemma quantum_exp_eq:
  assumes "- 1074 \<le> k" "k \<le> 971" "k = - 1074 \<or> 2 ^ 52 * 2 powi k \<le> x" "x < 2 ^ 53 * 2 powi k"
  shows "quantum_exp x = k"
  unfolding quantum_exp_def
proof (rule quantum_from_eq)
  show "- 1074 \<le> k" by fact
  show "k \<le> - 1074 + int 2045" using assms(2) by simp
  show "x < 2 ^ 53 * 2 powi k \<or> k = - 1074 + int 2045" using assms(4) by simp
  show "\<forall>j. - 1074 \<le> j \<and> j < k \<longrightarrow> \<not> x < 2 ^ 53 * 2 powi j"
  proof (intro allI impI)
    fix j assume j: "- 1074 \<le> j \<and> j < k"
    then have "k \<noteq> - 1074" by simp
    then have low: "2 ^ 52 * 2 powi k \<le> x" using assms(3) by simp
    have "(2::rat) powi (j + 1) \<le> 2 powi k"
      using j by (intro power_int_increasing) simp_all
    then have "2 ^ 53 * (2::rat) powi j \<le> 2 ^ 52 * 2 powi k"
      by (simp add: power_int_add)
    then show "\<not> x < 2 ^ 53 * 2 powi j" using low by simp
  qed
qed

lemma round_half_even_eq: "\<bar>y - of_int n\<bar> < 1 / 2 \<Longrightarrow> round_half_even y = n"
proof -
  assume a: "\<bar>y - of_int n\<bar> < 1 / 2"
  show ?thesis
  proof (cases "of_int n \<le> y")
    case True
    then have "\<lfloor>y\<rfloor> = n" using a by (intro floor_unique) (auto simp: abs_if split: if_splits)
    then show ?thesis using a True by (simp add: round_half_even_def Let_def abs_if)
  next
    case False
    then have "\<lfloor>y\<rfloor> = n - 1" using a by (intro floor_unique) (auto simp: abs_if split: if_splits)
    then show ?thesis using a False by (auto simp: round_half_even_def Let_def abs_if split: if_splits)
  qed
qed

lemma round_half_even_tie:
  "y = of_int f + 1 / 2 \<Longrightarrow> round_half_even y = (if even f then f else f + 1)"
proof -
  assume y: "y = of_int f + 1 / 2"
  have "\<lfloor>y\<rfloor> = f" unfolding y by (rule floor_unique) simp_all
  then show ?thesis by (simp add: round_half_even_def Let_def y)
qed

lemma round_half_even_le:
  assumes "y < of_int N"
  shows "round_half_even y \<le> N"
proof -
  have "\<lfloor>y\<rfloor> < N" using assms by (simp add: floor_less_iff)
  then show ?thesis by (simp add: round_half_even_def Let_def)
qed

text \<open>How a non-negative number is rounded, once its binade is known.\<close>

lemma to_double_roundI:
  assumes "0 \<le> x" "- 1074 \<le> k" "k \<le> 970"
    and "k = - 1074 \<or> 2 ^ 52 * 2 powi k \<le> x" and "x < 2 ^ 53 * 2 powi k"
    and "round_half_even (x / 2 powi k) = n"
  shows "to_double x = JNum (of_int n * 2 powi k)"
proof -
  have q: "quantum_exp \<bar>x\<bar> = k"
    using assms by (intro quantum_exp_eq) simp_all
  have r: "round_half_even (\<bar>x\<bar> / 2 powi k) = n"
    using assms(1,6) by simp
  have pos: "(0::rat) < 2 powi k" by (simp add: zero_less_power_int)
  have "x / 2 powi k < of_int (2 ^ 53)" using assms(5) pos by (simp add: field_simps)
  then have "n \<le> 2 ^ 53" unfolding assms(6)[symmetric] by (rule round_half_even_le)
  then have "(of_int n :: rat) \<le> of_int (2 ^ 53)" by (simp only: of_int_le_iff)
  then have n: "of_int n \<le> (2::rat) ^ 53" by simp
  have "(2::rat) powi k \<le> 2 powi 970" using assms(3) by (intro power_int_increasing) simp_all
  then have "of_int n * 2 powi k \<le> (2::rat) ^ 53 * 2 powi 970"
    using n pos by (intro mult_mono) simp_all
  also have "\<dots> < 2 ^ 1024" by simp
  finally have small: "\<not> (2::rat) ^ 1024 \<le> of_int n * 2 powi k" by simp
  show ?thesis
    using q r small assms(1) by (simp add: to_double_def Let_def)
qed

lemma to_double_eqI:
  assumes "0 \<le> x" "- 1074 \<le> k" "k \<le> 970"
    and "k = - 1074 \<or> 2 ^ 52 * 2 powi k \<le> x" and "x < 2 ^ 53 * 2 powi k"
    and "\<bar>x / 2 powi k - of_int n\<bar> < 1 / 2"
  shows "to_double x = JNum (of_int n * 2 powi k)"
  using assms(1-5) round_half_even_eq[OF assms(6)] by (rule to_double_roundI)

lemma to_double_tieI:
  assumes "0 \<le> x" "- 1074 \<le> k" "k \<le> 970"
    and "k = - 1074 \<or> 2 ^ 52 * 2 powi k \<le> x" and "x < 2 ^ 53 * 2 powi k"
    and "x / 2 powi k = of_int f + 1 / 2"
  shows "to_double x = JNum (of_int (if even f then f else f + 1) * 2 powi k)"
  using assms(1-5) round_half_even_tie[OF assms(6)] by (rule to_double_roundI)

lemma quantum_from_ge: "k \<le> quantum_from n k x"
proof (induction n arbitrary: k)
  case 0
  show ?case by simp
next
  case (Suc n)
  have "k + 1 \<le> quantum_from n (k + 1) x" by (rule Suc.IH)
  then show ?case by simp
qed

lemma quantum_from_le: "x < 2 ^ 53 * 2 powi j \<Longrightarrow> k \<le> j \<Longrightarrow> quantum_from n k x \<le> j"
proof (induction n arbitrary: k)
  case 0
  then show ?case by simp
next
  case (Suc n)
  show ?case
  proof (cases "x < 2 ^ 53 * 2 powi k")
    case True
    then show ?thesis using Suc.prems(2) by simp
  next
    case False
    then have "k \<noteq> j" using Suc.prems(1) by auto
    then have "k + 1 \<le> j" using Suc.prems(2) by simp
    then have "quantum_from n (k + 1) x \<le> j" using Suc.prems(1) by (intro Suc.IH)
    then show ?thesis using False by simp
  qed
qed

lemma round_half_even_int: "round_half_even (of_int z) = z"
  by (simp add: round_half_even_def)

text \<open>A number with a 53-bit significand and an exponent in range is a double.\<close>

lemma to_double_exact:
  assumes "\<bar>n\<bar> < 2 ^ 53" "- 1074 \<le> j" "j \<le> 971"
  shows "to_double (of_int n * 2 powi j) = JNum (of_int n * 2 powi j)"
proof -
  define x :: rat where "x = of_int n * 2 powi j"
  define k where "k = quantum_exp \<bar>x\<bar>"
  have pos: "(0::rat) < 2 powi i" for i by (simp add: zero_less_power_int)
  have ax: "\<bar>x\<bar> = of_int \<bar>n\<bar> * 2 powi j"
    using pos[of j] by (simp add: x_def abs_mult)
  have "(of_int \<bar>n\<bar> :: rat) < of_int (2 ^ 53)"
    using assms(1) by (simp only: of_int_less_iff)
  then have n: "(of_int \<bar>n\<bar> :: rat) < 2 ^ 53" by simp
  then have lt: "\<bar>x\<bar> < 2 ^ 53 * 2 powi j"
    using pos[of j] by (simp add: ax)
  have k1: "- 1074 \<le> k"
    unfolding k_def quantum_exp_def by (rule quantum_from_ge)
  have k2: "k \<le> j"
    unfolding k_def quantum_exp_def using lt assms(2) by (rule quantum_from_le)
  have "(2::rat) powi (j - k) = 2 ^ nat (j - k)"
    using k2 by (simp add: power_int_def)
  moreover have "(2::rat) powi j = 2 powi k * 2 powi (j - k)"
    using power_int_add[of "2::rat" k "j - k"] by simp
  ultimately have split: "(2::rat) powi j = 2 powi k * 2 ^ nat (j - k)" by simp
  have "\<bar>x\<bar> / 2 powi k = of_int \<bar>n\<bar> * (2 powi k * 2 ^ nat (j - k)) / 2 powi k"
    by (simp only: ax split)
  also have "\<dots> = of_int \<bar>n\<bar> * 2 ^ nat (j - k)"
    using pos[of k] by simp
  also have "\<dots> = of_int (\<bar>n\<bar> * 2 ^ nat (j - k))" by simp
  finally have "round_half_even (\<bar>x\<bar> / 2 powi k) = \<bar>n\<bar> * 2 ^ nat (j - k)"
    by (simp only: round_half_even_int)
  then have "of_int (round_half_even (\<bar>x\<bar> / 2 powi k)) * (2::rat) powi k
               = of_int \<bar>n\<bar> * (2 powi k * 2 ^ nat (j - k))"
    by simp
  then have m: "of_int (round_half_even (\<bar>x\<bar> / 2 powi k)) * 2 powi k = \<bar>x\<bar>"
    by (simp only: ax split)
  have "(2::rat) powi j \<le> 2 powi 971" using assms(3) by (intro power_int_increasing) simp_all
  then have "2 ^ 53 * (2::rat) powi j \<le> 2 ^ 53 * 2 powi 971" by simp
  also have "\<dots> = 2 ^ 1024" by simp
  finally have "\<bar>x\<bar> < 2 ^ 1024" using lt by simp
  then have small: "\<not> 2 ^ 1024 \<le> \<bar>x\<bar>" by simp
  have "to_double x = (if 2 ^ 1024 \<le> \<bar>x\<bar> then (if 0 < x then JInfinity else JNegInfinity)
                       else JNum (if 0 \<le> x then \<bar>x\<bar> else - \<bar>x\<bar>))"
    by (simp only: to_double_def Let_def k_def[symmetric] m)
  also have "\<dots> = JNum (if 0 \<le> x then \<bar>x\<bar> else - \<bar>x\<bar>)"
    using small by (simp only: if_False)
  also have "\<dots> = JNum x" by simp
  finally have "to_double x = JNum x" .
  then show ?thesis by (simp only: x_def)
qed

lemma to_double_int: "\<bar>n\<bar> < 2 ^ 53 \<Longrightarrow> to_double (of_int n) = JNum (of_int n)"
  using to_double_exact[of n 0] by simp

lemma to_double_quarter:
  assumes "0 \<le> x" "4 * x = of_int \<lfloor>4 * x\<rfloor>" "x * 100 < 2 ^ 53"
  shows "to_double x = JNum x"
proof -
  have "of_int \<lfloor>4 * x\<rfloor> < (2::rat) ^ 53" using assms by linarith
  then have "(of_int \<lfloor>4 * x\<rfloor> :: rat) < of_int (2 ^ 53)" by simp
  then have "\<lfloor>4 * x\<rfloor> < 2 ^ 53" by (simp only: of_int_less_iff)
  moreover have "0 \<le> \<lfloor>4 * x\<rfloor>" using assms(1) by simp
  ultimately have "\<bar>\<lfloor>4 * x\<rfloor>\<bar> < 2 ^ 53" by simp
  then have "to_double (of_int \<lfloor>4 * x\<rfloor> * 2 powi (- 2)) = JNum (of_int \<lfloor>4 * x\<rfloor> * 2 powi (- 2))"
    by (intro to_double_exact) simp_all
  moreover have "of_int \<lfloor>4 * x\<rfloor> * 2 powi (- 2) = x"
    using assms(2) by simp
  ultimately show ?thesis by simp
qed

lemma double_tenth:
  "to_double (1 / 10) = JNum (3602879701896397 / 36028797018963968)"
proof -
  have "to_double (1 / 10) = JNum (of_int 7205759403792794 * 2 powi (- 56))"
    by (rule to_double_eqI) simp_all
  then show ?thesis by simp
qed

lemma double_fifth:
  "to_double (1 / 5) = JNum (3602879701896397 / 18014398509481984)"
proof -
  have "to_double (1 / 5) = JNum (of_int 7205759403792794 * 2 powi (- 55))"
    by (rule to_double_eqI) simp_all
  then show ?thesis by simp
qed

lemma double_three_tenths:
  "to_double (3 / 10) = JNum (5404319552844595 / 18014398509481984)"
proof -
  have "to_double (3 / 10) = JNum (of_int 5404319552844595 * 2 powi (- 54))"
    by (rule to_double_eqI) simp_all
  then show ?thesis by simp
qed

lemma tenth_plus_fifth_step:
  "num_add (JNum (3602879701896397 / 36028797018963968)) (JNum (3602879701896397 / 18014398509481984)) = JNum (1351079888211149 / 4503599627370496)"
proof -
  have "to_double (3602879701896397 / 36028797018963968 + 3602879701896397 / 18014398509481984)
          = JNum (of_int (if even (5404319552844595::int) then 5404319552844595
                          else 5404319552844595 + 1) * 2 powi (- 54))"
    by (rule to_double_tieI) simp_all
  then show ?thesis by simp
qed

text \<open>\<^verbatim>\<open>0.1 + 0.2\<close> is the double 0.30000000000000004, not the double 0.3: the sum of
  the two doubles lies halfway between two doubles and goes to the even one.\<close>

lemma tenth_plus_fifth:
  "num_add (to_double (1 / 10)) (to_double (1 / 5)) = JNum (1351079888211149 / 4503599627370496)
   \<and> num_add (to_double (1 / 10)) (to_double (1 / 5)) \<noteq> to_double (3 / 10)"
  by (simp only: double_tenth double_fifth double_three_tenths tenth_plus_fifth_step) simp

section \<open>The requests of scenario A, evaluated\<close>

lemma double_2999:
  "to_double (2999 / 100) = JNum (8441434551552573 / 281474976710656)"
proof -
  have "to_double (2999 / 100) = JNum (of_int 8441434551552573 * 2 powi (- 48))"
    by (rule to_double_eqI) simp_all
  then show ?thesis by simp
qed

lemma double_4999:
  "to_double (4999 / 100) = JNum (7035467042882847 / 140737488355328)"
proof -
  have "to_double (4999 / 100) = JNum (of_int 7035467042882847 * 2 powi (- 47))"
    by (rule to_double_eqI) simp_all
  then show ?thesis by simp
qed

lemma scenarioA_line1:
  "js_times (JNum (8441434551552573 / 281474976710656)) (JNum 2) = JNum (8441434551552573 / 140737488355328)"
proof -
  have "to_double (8441434551552573 / 281474976710656 * 2) = JNum (of_int 8441434551552573 * 2 powi (- 47))"
    by (rule to_double_eqI) simp_all
  then show ?thesis by simp
qed

lemma scenarioA_line2:
  "js_times (JNum (7035467042882847 / 140737488355328)) (JNum 1) = JNum (7035467042882847 / 140737488355328)"
proof -
  have "to_double (7035467042882847 / 140737488355328 * 1) = JNum (of_int 7035467042882847 * 2 powi (- 47))"
    by (rule to_double_eqI) simp_all
  then show ?thesis by simp
qed

lemma scenarioA_sum0:
  "num_add (JNum 0) (JNum (8441434551552573 / 140737488355328)) = JNum (8441434551552573 / 140737488355328)"
proof -
  have "to_double (0 + 8441434551552573 / 140737488355328) = JNum (of_int 8441434551552573 * 2 powi (- 47))"
    by (rule to_double_eqI) simp_all
  then show ?thesis by simp
qed

lemma scenarioA_sum1:
  "num_add (JNum (8441434551552573 / 140737488355328)) (JNum (7035467042882847 / 140737488355328)) = JNum (3869225398608855 / 35184372088832)"
proof -
  have "to_double (8441434551552573 / 140737488355328 + 7035467042882847 / 140737488355328) = JNum (of_int 7738450797217710 * 2 powi (- 46))"
    by (rule to_double_eqI) simp_all
  then show ?thesis by simp
qed

lemma scenarioA_cents:
  "js_times (JNum (3869225398608855 / 35184372088832)) (JNum 100) = JNum 10997"
proof -
  have "to_double (3869225398608855 / 35184372088832 * 100) = JNum (of_int 6045664685326336 * 2 powi (- 39))"
    by (rule to_double_eqI) simp_all
  then show ?thesis by simp
qed

lemma nearest_2999: "nearest_double (2999 / 100) = 8441434551552573 / 281474976710656"
  by (simp add: nearest_double_def double_2999)

lemma nearest_4999: "nearest_double (4999 / 100) = 7035467042882847 / 140737488355328"
  by (simp add: nearest_double_def double_4999)

lemma double_10997: "to_double (10997 / 100) = JNum (3869225398608855 / 35184372088832)"
proof -
  have "to_double (10997 / 100) = JNum (of_int 7738450797217710 * 2 powi (- 46))"
    by (rule to_double_eqI) simp_all
  then show ?thesis by simp
qed

lemma total_scenarioA: "totalRounded scenarioA_items = to_double (10997 / 100)"
proof -
  have "items_sum scenarioA_items
          = num_add (num_add (JNum 0)
                       (js_times (JNum (8441434551552573 / 281474976710656)) (JNum 2)))
                    (js_times (JNum (7035467042882847 / 140737488355328)) (JNum 1))"
    by (simp add: items_sum_def scenarioA_items_def item_json_def line_total_def
          nearest_2999 nearest_4999 del: js_times.simps num_add.simps)
  also have "\<dots> = JNum (3869225398608855 / 35184372088832)"
    by (simp only: scenarioA_line1 scenarioA_line2 scenarioA_sum0 scenarioA_sum1)
  finally have "js_times (items_sum scenarioA_items) (JNum 100) = JNum 10997"
    by (simp only: scenarioA_cents)
  moreover have "\<lfloor>(10997::rat) + 1 / 2\<rfloor> = 10997"
    by (rule floor_unique) simp_all
  ultimately show ?thesis by (simp add: totalRounded_def)
qed

lemma check_scenarioA: "check_items scenarioA_items = ItemOk"
  by (simp add: scenarioA_items_def check_item_def item_json_def nearest_2999 nearest_4999)

lemma create_scenarioA_any:
  "create_order env scenarioA_body orders
     = ((201, OrderBody (new_order env scenarioA_body scenarioA_items)),
        orders @ [new_order env scenarioA_body scenarioA_items])"
proof -
  have "scenarioA_items \<noteq> []" by (simp add: scenarioA_items_def)
  then show ?thesis
    using check_scenarioA by (simp add: create_order_def scenarioA_body_def order_body_def Let_def)
qed

lemma create_scenarioA:
  "create_order env1 scenarioA_body orders
     = ((201, OrderBody scenarioA_order), orders @ [scenarioA_order])"
proof -
  have "new_order env1 scenarioA_body scenarioA_items = scenarioA_order"
    by (simp add: new_order_def total_scenarioA scenarioA_order_def env1_def
          scenarioA_body_def order_body_def)
  moreover have "scenarioA_items \<noteq> []" by (simp add: scenarioA_items_def)
  ultimately show ?thesis
    using check_scenarioA by (simp add: create_order_def scenarioA_body_def order_body_def Let_def)
qed

lemma created_store_eval: "created_store = [scenarioA_order]"
  by (simp add: created_store_def create_scenarioA)

lemma find_scenarioA [simp]:
  "find (\<lambda>r. orderId r = ''order-1'') [scenarioA_order\<lparr>status := s, updatedAt := t\<rparr>]
     = Some (scenarioA_order\<lparr>status := s, updatedAt := t\<rparr>)"
  "find (\<lambda>r. orderId r = ''order-1'') [scenarioA_order] = Some scenarioA_order"
  by (simp_all add: scenarioA_order_def)

lemma status_scenarioA [simp]: "status scenarioA_order = ''pending''"
  by (simp add: scenarioA_order_def)

lemma orderId_scenarioA [simp]: "orderId scenarioA_order = ''order-1''"
  by (simp add: scenarioA_order_def)

lemma valid_status_names [simp]:
  "''pending'' \<in> set VALID_STATUSES" "''confirmed'' \<in> set VALID_STATUSES"
  "''processing'' \<in> set VALID_STATUSES" "''shipped'' \<in> set VALID_STATUSES"
  "''delivered'' \<in> set VALID_STATUSES" "''cancelled'' \<in> set VALID_STATUSES"
  by (simp_all add: VALID_STATUSES_def)

section \<open>C1: status changes of an order\<close>

lemma includes_status_str: "includes_status v \<Longrightarrow> the_str v \<in> set VALID_STATUSES"
  by (cases v) auto

lemma apply_op_valid:
  assumes "list_all (\<lambda>r. status r \<in> set VALID_STATUSES) orders"
  shows "list_all (\<lambda>r. status r \<in> set VALID_STATUSES) (snd (apply_op op orders))"
proof (cases op)
  case (CreateOrder env body)
  then show ?thesis using assms
    by (auto simp: create_order_def new_order_def VALID_STATUSES_def Let_def
             split: jsval.splits item_check.splits)
next
  case (GetOrder oid)
  then show ?thesis using assms by (simp add: get_order_def split: option.splits)
next
  case (GetUserOrders uid)
  then show ?thesis using assms by (simp add: get_user_orders_def)
next
  case (UpdateStatus now oid body)
  then show ?thesis using assms
    by (auto simp: update_status_def Let_def list_all_update_first includes_status_str
             split: option.splits)
next
  case (CancelOrder now oid)
  then show ?thesis using assms
    by (auto simp: cancel_order_def Let_def VALID_STATUSES_def
             intro!: list_all_update_first split: option.splits)
qed

lemma run_ops_valid:
  "list_all (\<lambda>r. status r \<in> set VALID_STATUSES) orders
   \<Longrightarrow> list_all (\<lambda>r. status r \<in> set VALID_STATUSES) (run_ops ops orders)"
  by (induction ops arbitrary: orders) (auto simp: apply_op_valid)

lemma update_status_sets:
  assumes "find (\<lambda>r. orderId r = oid) orders = Some r0"
    and "getp body ''status'' = JStr s" and "s \<in> set VALID_STATUSES"
  shows "fst (update_status now oid body orders)
           = (200, OrderBody (r0\<lparr>status := s, updatedAt := now\<rparr>))"
    and "find (\<lambda>r. orderId r = oid) (snd (update_status now oid body orders))
           = Some (r0\<lparr>status := s, updatedAt := now\<rparr>)"
proof -
  have nn: "\<not> nullish body" using assms(2) by (cases body) auto
  have ne: "s \<noteq> []" using assms(3) by (auto simp: VALID_STATUSES_def)
  have id: "orderId r0 = oid" using find_Some_sat[OF assms(1)] by simp
  show "fst (update_status now oid body orders)
           = (200, OrderBody (r0\<lparr>status := s, updatedAt := now\<rparr>))"
    using assms nn ne by (simp add: update_status_def Let_def)
  show "find (\<lambda>r. orderId r = oid) (snd (update_status now oid body orders))
           = Some (r0\<lparr>status := s, updatedAt := now\<rparr>)"
    using assms nn ne id by (simp add: update_status_def Let_def find_update_first)
qed

lemma cancel_changes:
  assumes "find (\<lambda>r. orderId r = oid) orders = Some r0"
    and "find (\<lambda>r. orderId r = oid) (snd (cancel_order now oid orders)) = Some r1"
    and "status r1 \<noteq> status r0"
  shows "(status r0 = ''pending'' \<or> status r0 = ''confirmed'') \<and> status r1 = ''cancelled''"
proof -
  have id: "orderId r0 = oid" using find_Some_sat[OF assms(1)] by simp
  show ?thesis
  proof (cases "status r0 \<noteq> ''pending'' \<and> status r0 \<noteq> ''confirmed''")
    case True
    then have "snd (cancel_order now oid orders) = orders"
      using assms(1) by (simp add: cancel_order_def)
    then show ?thesis using assms by simp
  next
    case False
    then have "find (\<lambda>r. orderId r = oid) (snd (cancel_order now oid orders))
                 = Some (r0\<lparr>status := ''cancelled'', updatedAt := now\<rparr>)"
      using assms(1) id by (auto simp: cancel_order_def Let_def find_update_first)
    then show ?thesis using assms(2) False by auto
  qed
qed

lemma store_with_status_eval:
  "s \<in> set VALID_STATUSES
   \<Longrightarrow> store_with_status s = [scenarioA_order\<lparr>status := s, updatedAt := ''t1''\<rparr>]"
  by (simp add: store_with_status_def create_scenarioA update_status_sets(2) update_status_def
        status_body_def Let_def) (auto simp: VALID_STATUSES_def)

text \<open>
  Claim C1, as the code has it. The order service has no transition graph: for every store
  and every sequence of requests, each status stays one of the six \<open>VALID_STATUSES\<close>;
  \<^verbatim>\<open>PUT /api/orders/:orderId/status\<close> with a valid status moves an existing order from
  whatever status it holds (a terminal one included) to the requested status; and
  \<^verbatim>\<open>POST /api/orders/:orderId/cancel\<close> changes a status only from \<^verbatim>\<open>pending\<close> or
  \<^verbatim>\<open>confirmed\<close>, and then to \<^verbatim>\<open>cancelled\<close>.
\<close>

theorem C1_status_amended:
  "(list_all (\<lambda>r. status r \<in> set VALID_STATUSES) orders
      \<longrightarrow> list_all (\<lambda>r. status r \<in> set VALID_STATUSES) (run_ops ops orders))
   \<and> (find (\<lambda>r. orderId r = oid) orders = Some r0 \<and> getp body ''status'' = JStr s
        \<and> s \<in> set VALID_STATUSES
      \<longrightarrow> fst (update_status now oid body orders)
            = (200, OrderBody (r0\<lparr>status := s, updatedAt := now\<rparr>))
          \<and> find (\<lambda>r. orderId r = oid) (snd (update_status now oid body orders))
            = Some (r0\<lparr>status := s, updatedAt := now\<rparr>))
   \<and> (find (\<lambda>r. orderId r = oid) orders = Some r0
        \<and> find (\<lambda>r. orderId r = oid) (snd (cancel_order now oid orders)) = Some r1
        \<and> status r1 \<noteq> status r0
      \<longrightarrow> (status r0 = ''pending'' \<or> status r0 = ''confirmed'') \<and> status r1 = ''cancelled'')"
  using run_ops_valid update_status_sets cancel_changes by blast

text \<open>
  Witness for claim C1 on the stores of scenario A: a delivered order is set back to
  \<^verbatim>\<open>pending\<close>, and a pending order is cancelled.
\<close>

theorem C1_status_amended_witness:
  "list_all (\<lambda>r. status r \<in> set VALID_STATUSES) (store_with_status ''delivered'')
   \<and> list_all (\<lambda>r. status r \<in> set VALID_STATUSES)
        (run_ops [UpdateStatus ''t2'' ''order-1'' (status_body ''pending'')]
           (store_with_status ''delivered''))
   \<and> find (\<lambda>r. orderId r = ''order-1'') (store_with_status ''delivered'')
        = Some (hd (store_with_status ''delivered''))
   \<and> getp (status_body ''pending'') ''status'' = JStr ''pending''
   \<and> ''pending'' \<in> set VALID_STATUSES
   \<and> find (\<lambda>r. orderId r = ''order-1'')
        (snd (update_status ''t2'' ''order-1'' (status_body ''pending'')
               (store_with_status ''delivered'')))
        = Some ((hd (store_with_status ''delivered''))\<lparr>status := ''pending'', updatedAt := ''t2''\<rparr>)
   \<and> find (\<lambda>r. orderId r = ''order-1'') created_store = Some (hd created_store)
   \<and> find (\<lambda>r. orderId r = ''order-1'') (snd (cancel_order ''t2'' ''order-1'' created_store))
        = Some ((hd created_store)\<lparr>status := ''cancelled'', updatedAt := ''t2''\<rparr>)
   \<and> status ((hd created_store)\<lparr>status := ''cancelled'', updatedAt := ''t2''\<rparr>)
        \<noteq> status (hd created_store)
   \<and> status (hd created_store) = ''pending''"
  using C1_status_amended [of "store_with_status ''delivered''"
          "[UpdateStatus ''t2'' ''order-1'' (status_body ''pending'')]" "''order-1''"
          "hd (store_with_status ''delivered'')" "status_body ''pending''" "''pending''" "''t2''"]
        C1_status_amended [of created_store "[]" "''order-1''" "hd created_store" JNull "[]" "''t2''"
          "(hd created_store)\<lparr>status := ''cancelled'', updatedAt := ''t2''\<rparr>"]
  by (simp add: created_store_eval store_with_status_eval status_body_def cancel_order_def Let_def)

text \<open>
  Claim C1 as stated fails: the order of scenario A goes from \<^verbatim>\<open>pending\<close> straight
  to \<^verbatim>\<open>delivered\<close> (skipping every state in between), and from the terminal status
  \<^verbatim>\<open>delivered\<close> back to \<^verbatim>\<open>pending\<close>.
\<close>

theorem C1_counterexample:
  "terminal_status ''delivered''
   \<and> map status created_store = [''pending'']
   \<and> map status (snd (update_status ''t1'' ''order-1'' (status_body ''delivered'') created_store))
       = [''delivered'']
   \<and> map status (store_with_status ''delivered'') = [''delivered'']
   \<and> map status (snd (update_status ''t2'' ''order-1'' (status_body ''pending'')
                         (store_with_status ''delivered''))) = [''pending'']"
  by (simp add: terminal_status_def created_store_eval store_with_status_eval
        update_status_def status_body_def Let_def)

section \<open>C2: cancellation\<close>

text \<open>
  Claim C2, as the code has it. For an order that exists, cancel succeeds (200) exactly
  when its status is \<^verbatim>\<open>pending\<close> or \<^verbatim>\<open>confirmed\<close>, and then sets the status to
  \<^verbatim>\<open>cancelled\<close>; in every other status it answers 400 and leaves the whole store as it
  was.
\<close>

theorem C2_cancel_amended:
  assumes "find (\<lambda>r. orderId r = oid) orders = Some r0"
  shows "(fst (fst (cancel_order now oid orders)) = 200
            \<longleftrightarrow> status r0 = ''pending'' \<or> status r0 = ''confirmed'')
         \<and> (status r0 \<noteq> ''pending'' \<and> status r0 \<noteq> ''confirmed''
            \<longrightarrow> cancel_order now oid orders
                  = ((400, ErrorBody (cancel_message (status r0))), orders))
         \<and> (status r0 = ''pending'' \<or> status r0 = ''confirmed''
            \<longrightarrow> find (\<lambda>r. orderId r = oid) (snd (cancel_order now oid orders))
                  = Some (r0\<lparr>status := ''cancelled'', updatedAt := now\<rparr>))"
proof -
  have id: "orderId r0 = oid" using find_Some_sat[OF assms] by simp
  show ?thesis using assms id
    by (auto simp: cancel_order_def Let_def find_update_first)
qed

text \<open>
  Witness for claim C2 on the stores of scenario A: a confirmed order is cancelled, a
  shipped one is refused.
\<close>

theorem C2_cancel_amended_witness:
  "find (\<lambda>r. orderId r = ''order-1'') (store_with_status ''confirmed'')
     = Some (hd (store_with_status ''confirmed''))
   \<and> status (hd (store_with_status ''confirmed'')) = ''confirmed''
   \<and> fst (fst (cancel_order ''t2'' ''order-1'' (store_with_status ''confirmed''))) = 200
   \<and> find (\<lambda>r. orderId r = ''order-1'') (store_with_status ''shipped'')
     = Some (hd (store_with_status ''shipped''))
   \<and> status (hd (store_with_status ''shipped'')) = ''shipped''
   \<and> cancel_order ''t2'' ''order-1'' (store_with_status ''shipped'')
       = ((400, ErrorBody (cancel_message ''shipped'')), store_with_status ''shipped'')"
  using C2_cancel_amended [of "''order-1''" "store_with_status ''confirmed''"
          "hd (store_with_status ''confirmed'')" "''t2''"]
        C2_cancel_amended [of "''order-1''" "store_with_status ''shipped''"
          "hd (store_with_status ''shipped'')" "''t2''"]
  by (simp add: store_with_status_eval)

text \<open>
  Claim C2 as stated fails in both directions: an order in status \<^verbatim>\<open>processing\<close> is
  refused cancellation with a 400 reply, and an order in status \<^verbatim>\<open>confirmed\<close> (neither
  PENDING nor PROCESSING) is cancelled.
\<close>

theorem C2_counterexample:
  "map status (store_with_status ''processing'') = [''processing'']
   \<and> cancel_order ''t2'' ''order-1'' (store_with_status ''processing'')
       = ((400, ErrorBody (cancel_message ''processing'')), store_with_status ''processing'')
   \<and> map status (store_with_status ''confirmed'') = [''confirmed'']
   \<and> fst (fst (cancel_order ''t2'' ''order-1'' (store_with_status ''confirmed''))) = 200
   \<and> map status (snd (cancel_order ''t2'' ''order-1'' (store_with_status ''confirmed'')))
       = [''cancelled'']"
  by (simp add: store_with_status_eval cancel_order_def Let_def)

section \<open>C3: creation and the idempotency key\<close>

lemma create_order_code_store:
  "fst (fst (create_order env body orders)) = fst (fst (create_order env' body orders'))"
  by (simp add: create_order_def internal_error_def Let_def
           split: jsval.splits item_check.splits)

lemma create_order_201:
  assumes "fst (fst (create_order env body orders)) = 201"
  shows "\<exists>its. getp body ''items'' = JArr its \<and> check_items its = ItemOk
           \<and> create_order env body orders
               = ((201, OrderBody (new_order env body its)), orders @ [new_order env body its])"
  using assms
  by (auto simp: create_order_def internal_error_def Let_def
           split: jsval.splits item_check.splits if_splits)

text \<open>
  Claim C3, as the code has it. The handler reads \<^verbatim>\<open>userId\<close>, \<^verbatim>\<open>items\<close> and
  \<^verbatim>\<open>shippingAddress\<close> only and never looks for an earlier order: every request that
  passes validation appends exactly one row whose \<^verbatim>\<open>orderId\<close> is the identifier
  generated for that request. Two accepted requests with the same body therefore leave two
  new rows, and each reply carries its own generated identifier.
\<close>

theorem C3_creation_amended:
  assumes "fst (fst (create_order e1 body orders)) = 201"
  shows "\<exists>r1 r2.
           create_order e1 body orders = ((201, OrderBody r1), orders @ [r1])
         \<and> create_order e2 body (orders @ [r1]) = ((201, OrderBody r2), orders @ [r1, r2])
         \<and> orderId r1 = uuid e1 \<and> orderId r2 = uuid e2"
proof -
  obtain its where c1: "create_order e1 body orders
       = ((201, OrderBody (new_order e1 body its)), orders @ [new_order e1 body its])"
    using create_order_201[OF assms] by blast
  have "fst (fst (create_order e2 body (orders @ [new_order e1 body its]))) = 201"
    using assms create_order_code_store[of e2 body "orders @ [new_order e1 body its]" e1 orders]
    by simp
  then obtain its' where c2: "create_order e2 body (orders @ [new_order e1 body its])
       = ((201, OrderBody (new_order e2 body its')),
          (orders @ [new_order e1 body its]) @ [new_order e2 body its'])"
    using create_order_201 by blast
  show ?thesis using c1 c2 by (simp add: new_order_def)
qed

text \<open>
  Witness for claim C3: the scenario A request, sent twice to an empty store.
\<close>

theorem C3_creation_amended_witness:
  "fst (fst (create_order env1 scenarioA_body [])) = 201
   \<and> (\<exists>r1 r2. create_order env1 scenarioA_body [] = ((201, OrderBody r1), [r1])
         \<and> create_order env2 scenarioA_body [r1] = ((201, OrderBody r2), [r1, r2])
         \<and> orderId r1 = ''order-1'' \<and> orderId r2 = ''order-2'')"
  using C3_creation_amended [of env1 scenarioA_body "[]" env2]
  by (simp add: create_scenarioA) (simp add: env1_def env2_def)

text \<open>
  Claim C3 as stated fails: two creation requests with the same body, hence the same
  \<^verbatim>\<open>idempotencyKey\<close>, leave two rows with two different order ids.
\<close>

theorem C3_counterexample:
  "getp scenarioA_body ''idempotencyKey'' = JStr ''key-1''
   \<and> length (run_ops [CreateOrder env1 scenarioA_body, CreateOrder env2 scenarioA_body] []) = 2
   \<and> map orderId (run_ops [CreateOrder env1 scenarioA_body, CreateOrder env2 scenarioA_body] [])
       = [''order-1'', ''order-2'']"
proof -
  have "run_ops [CreateOrder env1 scenarioA_body, CreateOrder env2 scenarioA_body] []
          = [new_order env1 scenarioA_body scenarioA_items,
             new_order env2 scenarioA_body scenarioA_items]"
    by (simp add: create_scenarioA_any)
  then show ?thesis
    by (simp add: new_order_def env1_def env2_def scenarioA_body_def order_body_def)
qed

section \<open>C5: the total of a created order\<close>

lemma is_json_getp: "is_json v \<Longrightarrow> getp v k \<noteq> JNaN"
proof (cases v)
  case (JObj kvs)
  assume "is_json v"
  then show ?thesis using JObj
    by (auto split: option.splits dest!: map_of_SomeD)
qed auto

lemma is_json_items: "is_json body \<Longrightarrow> getp body k = JArr its \<Longrightarrow> \<forall>item\<in>set its. is_json item"
proof (cases body)
  case (JObj kvs)
  assume "is_json body" "getp body k = JArr its"
  then show ?thesis using JObj
    by (auto split: option.splits dest!: map_of_SomeD)
qed auto

lemma check_item_valid:
  "getp item ''price'' \<noteq> JNaN \<Longrightarrow> (check_item item = ItemOk) = valid_item item"
  unfolding check_item_def valid_item_def
  by (cases "getp item ''price''"; cases "getp item ''quantity''") auto

lemma check_items_valid:
  "\<forall>item\<in>set its. is_json item \<Longrightarrow> (check_items its = ItemOk) = list_all valid_item its"
proof (induction its)
  case Nil
  show ?case by simp
next
  case (Cons item rest)
  have "(check_items (item # rest) = ItemOk)
          = (check_item item = ItemOk \<and> check_items rest = ItemOk)"
    by (cases "check_item item") simp_all
  moreover have "(check_item item = ItemOk) = valid_item item"
    using Cons.prems is_json_getp by (intro check_item_valid) simp
  ultimately show ?case using Cons by simp
qed

lemma create_order_accepts:
  assumes "is_json body"
  shows "(fst (fst (create_order env body orders)) = 201) = valid_order_request body"
proof (cases "getp body ''items''")
  case (JArr its)
  have "(check_items its = ItemOk) = list_all valid_item its"
    using is_json_items[OF assms JArr] by (rule check_items_valid)
  then show ?thesis using JArr
    by (cases "check_items its")
       (simp_all add: create_order_def valid_order_request_def internal_error_def Let_def)
qed (simp_all add: create_order_def valid_order_request_def internal_error_def)

lemma exact_line_valid:
  assumes "valid_item item" "quarter_price (getp item ''price'')"
  shows "\<exists>p q. getp item ''price'' = JNum p \<and> getp item ''quantity'' = JNum q
           \<and> exact_line item = q * p \<and> 0 \<le> p \<and> 1 \<le> q
           \<and> 4 * (q * p) = of_int \<lfloor>4 * (q * p)\<rfloor>"
proof -
  obtain p where p: "getp item ''price'' = JNum p" "0 \<le> p" "4 * p = of_int \<lfloor>4 * p\<rfloor>"
    using assms by (cases "getp item ''price''") (auto simp: valid_item_def)
  obtain q where q: "getp item ''quantity'' = JNum q" "q = of_int \<lfloor>q\<rfloor>" "1 \<le> q"
    using assms(1) by (cases "getp item ''quantity''") (auto simp: valid_item_def)
  have "4 * (q * p) = of_int \<lfloor>q\<rfloor> * of_int \<lfloor>4 * p\<rfloor>"
    using p(3) q(2) by (simp add: mult.commute mult.left_commute)
  also have "\<dots> = of_int (\<lfloor>q\<rfloor> * \<lfloor>4 * p\<rfloor>)" by simp
  finally have "4 * (q * p) = of_int \<lfloor>4 * (q * p)\<rfloor>"
    by (metis floor_of_int)
  then show ?thesis using p q by (simp add: exact_line_def)
qed

lemma exact_line_nonneg: "valid_item item \<Longrightarrow> 0 \<le> exact_line item"
  by (cases "getp item ''price''"; cases "getp item ''quantity''")
     (auto simp: valid_item_def exact_line_def)

lemma exact_sum_nonneg: "list_all valid_item its \<Longrightarrow> 0 \<le> exact_sum its"
  by (induction its) (auto simp: exact_sum_def dest: exact_line_nonneg)

lemma fold_exact:
  assumes "list_all valid_item its"
    and "list_all (\<lambda>item. quarter_price (getp item ''price'')) its"
    and "0 \<le> a" and "4 * a = of_int \<lfloor>4 * a\<rfloor>"
    and "(a + exact_sum its) * 100 < 2 ^ 53"
  shows "foldl (\<lambda>sum item. num_add sum (line_total item)) (JNum a) its
           = JNum (a + exact_sum its)"
  using assms
proof (induction its arbitrary: a)
  case Nil
  show ?case by (simp add: exact_sum_def)
next
  case (Cons item rest)
  obtain p q where pq: "getp item ''price'' = JNum p" "getp item ''quantity'' = JNum q"
      "exact_line item = q * p" "0 \<le> p" "1 \<le> q" "4 * (q * p) = of_int \<lfloor>4 * (q * p)\<rfloor>"
    using exact_line_valid[of item] Cons.prems(1,2) by auto
  have rest: "0 \<le> exact_sum rest"
    using Cons.prems(1) by (intro exact_sum_nonneg) simp
  have sum: "exact_sum (item # rest) = q * p + exact_sum rest"
    by (simp add: exact_sum_def pq(3))
  have nn: "0 \<le> q * p" using pq(4,5) by simp
  have bound: "(a + q * p + exact_sum rest) * 100 < 2 ^ 53"
    using Cons.prems(5) by (simp add: sum algebra_simps)
  have "(q * p) * 100 < 2 ^ 53"
    using bound rest Cons.prems(3) by (simp add: algebra_simps)
  then have "to_double (q * p) = JNum (q * p)"
    using nn pq(6) by (intro to_double_quarter)
  then have line: "line_total item = JNum (q * p)"
    by (simp add: line_total_def pq(1,2) mult.commute)
  have "4 * (a + q * p) = of_int (\<lfloor>4 * a\<rfloor> + \<lfloor>4 * (q * p)\<rfloor>)"
    using Cons.prems(4) pq(6) by (simp add: algebra_simps)
  then have quarter: "4 * (a + q * p) = of_int \<lfloor>4 * (a + q * p)\<rfloor>"
    by (metis floor_of_int)
  have "(a + q * p) * 100 < 2 ^ 53"
    using bound rest by (simp add: algebra_simps)
  then have "to_double (a + q * p) = JNum (a + q * p)"
    using nn Cons.prems(3) quarter by (intro to_double_quarter) simp_all
  then have "num_add (JNum a) (line_total item) = JNum (a + q * p)"
    by (simp add: line)
  moreover have "foldl (\<lambda>sum item. num_add sum (line_total item)) (JNum (a + q * p)) rest
                   = JNum (a + q * p + exact_sum rest)"
    using Cons.prems(1,2,3) nn quarter bound by (intro Cons.IH) simp_all
  ultimately show ?case by (simp add: sum add.assoc)
qed

lemma exact_sum_quarter:
  assumes "list_all valid_item its"
    and "list_all (\<lambda>item. quarter_price (getp item ''price'')) its"
  shows "4 * exact_sum its = of_int \<lfloor>4 * exact_sum its\<rfloor>"
  using assms
proof (induction its)
  case Nil
  show ?case by (simp add: exact_sum_def)
next
  case (Cons item rest)
  obtain p q where pq: "exact_line item = q * p" "4 * (q * p) = of_int \<lfloor>4 * (q * p)\<rfloor>"
    using exact_line_valid[of item] Cons.prems by auto
  have "4 * exact_sum rest = of_int \<lfloor>4 * exact_sum rest\<rfloor>"
    using Cons.prems by (intro Cons.IH) simp_all
  then have "4 * exact_sum (item # rest)
               = of_int (\<lfloor>4 * (q * p)\<rfloor> + \<lfloor>4 * exact_sum rest\<rfloor>)"
    using pq by (simp add: exact_sum_def algebra_simps)
  then show ?case by (metis floor_of_int)
qed

lemma floor_int_half: "\<lfloor>(of_int z :: rat) + 1 / 2\<rfloor> = z"
  by (rule floor_unique) simp_all

text \<open>
  Where every price is a multiple of 0.25 and a hundred times the sum stays below \<open>2 ^ 53\<close>,
  no operation of the handler rounds: the stored total is the exact sum.
\<close>

lemma total_exact:
  assumes "list_all valid_item its"
    and "list_all (\<lambda>item. quarter_price (getp item ''price'')) its"
    and "exact_sum its * 100 < 2 ^ 53"
  shows "totalRounded its = JNum (exact_sum its)"
proof -
  define s where "s = exact_sum its"
  define z where "z = \<lfloor>4 * s\<rfloor>"
  have s0: "0 \<le> s" unfolding s_def using assms(1) by (rule exact_sum_nonneg)
  have q: "4 * s = of_int z"
    unfolding s_def z_def using assms(1,2) by (rule exact_sum_quarter)
  have lt: "s * 100 < 2 ^ 53" using assms(3) by (simp add: s_def)
  have sum: "items_sum its = JNum s"
    unfolding items_sum_def s_def using fold_exact[OF assms(1,2), of 0] assms(3) by simp
  have cents: "s * 100 = of_int (25 * z)" using q by simp
  have "(of_int (25 * z) :: rat) < of_int (2 ^ 53)" using lt cents by simp
  then have "25 * z < 2 ^ 53" by (simp only: of_int_less_iff)
  moreover have "0 \<le> z" unfolding z_def using s0 by simp
  ultimately have "\<bar>25 * z\<bar> < 2 ^ 53" by simp
  then have "to_double (of_int (25 * z)) = JNum (of_int (25 * z))"
    by (rule to_double_int)
  then have "js_times (items_sum its) (JNum 100) = JNum (of_int (25 * z))"
    by (simp only: sum js_times.simps cents)
  then have "Math_round (js_times (items_sum its) (JNum 100)) = JNum (of_int (25 * z))"
    by (simp only: Math_round.simps floor_int_half)
  moreover have "of_int (25 * z) / 100 = s" using q by simp
  moreover have "to_double s = JNum s"
    using s0 lt q by (intro to_double_quarter) (simp_all add: z_def)
  ultimately show ?thesis
    by (simp only: totalRounded_def js_divide.simps s_def[symmetric])
qed

lemma double_half_cent:
  "to_double (1 / 200) = JNum (5764607523034235 / 1152921504606846976)"
proof -
  have "to_double (1 / 200) = JNum (of_int 5764607523034235 * 2 powi (- 60))"
    by (rule to_double_eqI) simp_all
  then show ?thesis by simp
qed

lemma half_cent_line1:
  "js_times (JNum (5764607523034235 / 1152921504606846976)) (JNum 1) = JNum (5764607523034235 / 1152921504606846976)"
proof -
  have "to_double (5764607523034235 / 1152921504606846976 * 1) = JNum (of_int 5764607523034235 * 2 powi (- 60))"
    by (rule to_double_eqI) simp_all
  then show ?thesis by simp
qed

lemma half_cent_sum0:
  "num_add (JNum 0) (JNum (5764607523034235 / 1152921504606846976)) = JNum (5764607523034235 / 1152921504606846976)"
proof -
  have "to_double (0 + 5764607523034235 / 1152921504606846976) = JNum (of_int 5764607523034235 * 2 powi (- 60))"
    by (rule to_double_eqI) simp_all
  then show ?thesis by simp
qed

lemma half_cent_line2:
  "js_times (JNum 1) (JNum 1) = JNum 1"
proof -
  have "to_double (1 * 1) = JNum (of_int 4503599627370496 * 2 powi (- 52))"
    by (rule to_double_eqI) simp_all
  then show ?thesis by simp
qed

lemma half_cent_sum1:
  "num_add (JNum (5764607523034235 / 1152921504606846976)) (JNum 1) = JNum (1131529406376837 / 1125899906842624)"
proof -
  have "to_double (5764607523034235 / 1152921504606846976 + 1) = JNum (of_int 4526117625507348 * 2 powi (- 52))"
    by (rule to_double_eqI) simp_all
  then show ?thesis by simp
qed

lemma half_cent_cents:
  "js_times (JNum (1131529406376837 / 1125899906842624)) (JNum 100) = JNum (7072058789855231 / 70368744177664)"
proof -
  have "to_double (1131529406376837 / 1125899906842624 * 100) = JNum (of_int 7072058789855231 * 2 powi (- 46))"
    by (rule to_double_eqI) simp_all
  then show ?thesis by simp
qed

lemma sixteenth_line:
  "js_times (JNum (1 / 16)) (JNum 1) = JNum (1 / 16)"
proof -
  have "to_double (1 / 16 * 1) = JNum (of_int 4503599627370496 * 2 powi (- 56))"
    by (rule to_double_eqI) simp_all
  then show ?thesis by simp
qed

lemma sixteenth_sum:
  "num_add (JNum 0) (JNum (1 / 16)) = JNum (1 / 16)"
proof -
  have "to_double (0 + 1 / 16) = JNum (of_int 4503599627370496 * 2 powi (- 56))"
    by (rule to_double_eqI) simp_all
  then show ?thesis by simp
qed

lemma sixteenth_cents:
  "js_times (JNum (1 / 16)) (JNum 100) = JNum (25 / 4)"
proof -
  have "to_double (1 / 16 * 100) = JNum (of_int 7036874417766400 * 2 powi (- 50))"
    by (rule to_double_eqI) simp_all
  then show ?thesis by simp
qed

lemma double_6_cents:
  "to_double (3 / 50) = JNum (1080863910568919 / 18014398509481984)"
proof -
  have "to_double (3 / 50) = JNum (of_int 8646911284551352 * 2 powi (- 57))"
    by (rule to_double_eqI) simp_all
  then show ?thesis by simp
qed

text \<open>
  The handler's arithmetic is that of doubles. For one unit at 0.005 and one unit at 1 the
  sum is the double 1.00499999999999989, a hundred times it is the double
  100.49999999999999, \<^verbatim>\<open>Math.round\<close> gives 100, and the stored total is 1.
\<close>

lemma total_half_cent: "totalRounded half_cent_items = JNum 1"
proof -
  have n: "nearest_double (1 / 200) = 5764607523034235 / 1152921504606846976"
    by (simp add: nearest_double_def double_half_cent)
  have "items_sum half_cent_items
          = num_add (num_add (JNum 0)
                       (js_times (JNum (5764607523034235 / 1152921504606846976)) (JNum 1)))
                    (js_times (JNum 1) (JNum 1))"
    by (simp add: items_sum_def half_cent_items_def item_json_def line_total_def n
          del: js_times.simps num_add.simps)
  also have "\<dots> = JNum (1131529406376837 / 1125899906842624)"
    by (simp only: half_cent_line1 half_cent_line2 half_cent_sum0 half_cent_sum1)
  finally have "js_times (items_sum half_cent_items) (JNum 100)
                  = JNum (7072058789855231 / 70368744177664)"
    by (simp only: half_cent_cents)
  moreover have "\<lfloor>(7072058789855231 / 70368744177664 :: rat) + 1 / 2\<rfloor> = 100"
    by (rule floor_unique) simp_all
  moreover have "to_double 1 = JNum 1"
    using to_double_int[of 1] by simp
  ultimately show ?thesis by (simp add: totalRounded_def)
qed

lemma total_sixteenth:
  "totalRounded [item_json ''p1'' ''Widget'' (1 / 16) 1] = to_double (3 / 50)"
proof -
  have "items_sum [item_json ''p1'' ''Widget'' (1 / 16) 1]
          = num_add (JNum 0) (js_times (JNum (1 / 16)) (JNum 1))"
    by (simp add: items_sum_def item_json_def line_total_def
          del: js_times.simps num_add.simps)
  also have "\<dots> = JNum (1 / 16)"
    by (simp only: sixteenth_line sixteenth_sum)
  finally have "js_times (items_sum [item_json ''p1'' ''Widget'' (1 / 16) 1]) (JNum 100)
                  = JNum (25 / 4)"
    by (simp only: sixteenth_cents)
  moreover have "\<lfloor>(25 / 4 :: rat) + 1 / 2\<rfloor> = 6"
    by (rule floor_unique) simp_all
  ultimately show ?thesis by (simp add: totalRounded_def)
qed

lemma is_double_int: "\<bar>n\<bar> < 2 ^ 53 \<Longrightarrow> is_double (of_int n)"
  by (simp add: is_double_def to_double_int)

lemma is_double_small [simp]: "is_double 1" "is_double 2" "is_double 5"
  using is_double_int[of 1] is_double_int[of 2] is_double_int[of 5] by simp_all

lemma is_double_sixteenth: "is_double (1 / 16)"
  using to_double_exact[of 1 "- 4"] by (simp add: is_double_def)

lemma is_double_quarter_49: "is_double (49 / 4)"
  using to_double_exact[of 49 "- 2"] by (simp add: is_double_def)

lemma is_json_order_body: "is_json (order_body its) = (\<forall>item\<in>set its. is_json item)"
  by (simp add: order_body_def)

lemma valid_order_body: "valid_order_request (order_body its) = (its \<noteq> [] \<and> list_all valid_item its)"
  by (simp add: valid_order_request_def order_body_def)

text \<open>
  Claim C5, as the code has it. A creation request with a JSON body is answered 201 exactly
  when it is valid. Then one order is appended, its status is \<^verbatim>\<open>pending\<close>, and its
  total is \<^verbatim>\<open>Math.round(sum * 100) / 100\<close> in double arithmetic, where \<^verbatim>\<open>sum\<close> adds
  the products \<^verbatim>\<open>price * quantity\<close> from the left, every operation rounding to the nearest
  double. Where every price is a multiple of 0.25 and a hundred times the exact sum is
  below \<open>2 ^ 53\<close>, the total is the exact sum of quantity times price. For scenario A (two
  units at 29.99 and one at 49.99) the total is the double that \<^verbatim>\<open>109.97\<close> denotes.
\<close>

theorem C5_total_amended:
  "(is_json body \<longrightarrow>
      (fst (fst (create_order env body orders)) = 201) = valid_order_request body)
   \<and> (is_json body \<and> valid_order_request body \<longrightarrow>
        (\<exists>its r. getp body ''items'' = JArr its
           \<and> create_order env body orders = ((201, OrderBody r), orders @ [r])
           \<and> status r = ''pending''
           \<and> total r = js_divide (Math_round (js_times
                 (foldl (\<lambda>sum item. num_add sum
                            (js_times (getp item ''price'') (getp item ''quantity'')))
                    (JNum 0) its)
                 (JNum 100))) 100
           \<and> (list_all (\<lambda>item. quarter_price (getp item ''price'')) its
                \<and> exact_sum its * 100 < 2 ^ 53
                \<longrightarrow> total r = JNum (exact_sum its))))
   \<and> create_order env1 scenarioA_body [] = ((201, OrderBody scenarioA_order), [scenarioA_order])
   \<and> total scenarioA_order = to_double (10997 / 100)
   \<and> status scenarioA_order = ''pending''"
proof -
  have "\<exists>its r. getp body ''items'' = JArr its
           \<and> create_order env body orders = ((201, OrderBody r), orders @ [r])
           \<and> status r = ''pending''
           \<and> total r = js_divide (Math_round (js_times
                 (foldl (\<lambda>sum item. num_add sum
                            (js_times (getp item ''price'') (getp item ''quantity'')))
                    (JNum 0) its)
                 (JNum 100))) 100
           \<and> (list_all (\<lambda>item. quarter_price (getp item ''price'')) its
                \<and> exact_sum its * 100 < 2 ^ 53
                \<longrightarrow> total r = JNum (exact_sum its))"
    if js: "is_json body" and ok: "valid_order_request body"
  proof -
    have "fst (fst (create_order env body orders)) = 201"
      using create_order_accepts[OF js] ok by simp
    then obtain its where its: "getp body ''items'' = JArr its"
      "create_order env body orders
         = ((201, OrderBody (new_order env body its)), orders @ [new_order env body its])"
      using create_order_201 by blast
    have valid: "list_all valid_item its"
      using ok its(1) by (simp add: valid_order_request_def)
    have t: "total (new_order env body its) = totalRounded its"
      by (simp add: new_order_def)
    have "total (new_order env body its) = js_divide (Math_round (js_times
                 (foldl (\<lambda>sum item. num_add sum
                            (js_times (getp item ''price'') (getp item ''quantity'')))
                    (JNum 0) its)
                 (JNum 100))) 100"
      by (simp only: t totalRounded_def items_sum_def line_total_def)
    moreover have "total (new_order env body its) = JNum (exact_sum its)"
      if "list_all (\<lambda>item. quarter_price (getp item ''price'')) its"
        and "exact_sum its * 100 < 2 ^ 53"
      using total_exact[OF valid that] t by simp
    moreover have "status (new_order env body its) = ''pending''"
      by (simp add: new_order_def)
    ultimately show ?thesis using its by blast
  qed
  moreover have "total scenarioA_order = to_double (10997 / 100)"
    by (simp add: scenarioA_order_def)
  moreover have "status scenarioA_order = ''pending''"
    by (simp add: scenarioA_order_def)
  ultimately show ?thesis
    using create_order_accepts[of body env orders] create_scenarioA[of "[]"] by simp
qed

text \<open>
  Witness for claim C5: two units at 12.25 and one unit at 5. The request is JSON and
  valid, its prices are multiples of 0.25, and the stored total is 29.5.
\<close>

theorem C5_total_amended_witness:
  "is_json quarters_body \<and> valid_order_request quarters_body
   \<and> fst (fst (create_order env1 quarters_body [])) = 201
   \<and> (\<exists>r. create_order env1 quarters_body [] = ((201, OrderBody r), [r])
          \<and> status r = ''pending'' \<and> total r = JNum (59 / 2))"
proof -
  have js: "is_json quarters_body"
    by (simp add: quarters_body_def is_json_order_body item_json_def is_double_quarter_49)
  have ok: "valid_order_request quarters_body"
    by (simp add: quarters_body_def valid_order_body item_json_def valid_item_def)
  have it: "getp quarters_body ''items''
              = JArr [item_json ''p1'' ''Widget'' (49 / 4) 2, item_json ''p2'' ''Gadget'' 5 1]"
    by (simp add: quarters_body_def order_body_def)
  have q: "list_all (\<lambda>item. quarter_price (getp item ''price''))
             [item_json ''p1'' ''Widget'' (49 / 4) 2, item_json ''p2'' ''Gadget'' 5 1]"
    by (simp add: item_json_def)
  have s: "exact_sum [item_json ''p1'' ''Widget'' (49 / 4) 2, item_json ''p2'' ''Gadget'' 5 1]
             = 59 / 2"
    by (simp add: exact_sum_def exact_line_def item_json_def)
  from C5_total_amended [of quarters_body env1 "[]"] js ok
  have code: "fst (fst (create_order env1 quarters_body [])) = 201"
    and "\<exists>its r. getp quarters_body ''items'' = JArr its
           \<and> create_order env1 quarters_body [] = ((201, OrderBody r), [] @ [r])
           \<and> status r = ''pending''
           \<and> (list_all (\<lambda>item. quarter_price (getp item ''price'')) its
                \<and> exact_sum its * 100 < 2 ^ 53
                \<longrightarrow> total r = JNum (exact_sum its))"
    by blast+
  then obtain its r where r: "getp quarters_body ''items'' = JArr its"
      "create_order env1 quarters_body [] = ((201, OrderBody r), [] @ [r])"
      "status r = ''pending''"
      "list_all (\<lambda>item. quarter_price (getp item ''price'')) its
         \<and> exact_sum its * 100 < 2 ^ 53 \<longrightarrow> total r = JNum (exact_sum its)"
    by blast
  have "its = [item_json ''p1'' ''Widget'' (49 / 4) 2, item_json ''p2'' ''Gadget'' 5 1]"
    using r(1) it by simp
  then have "total r = JNum (59 / 2)"
    using r(4) q s by simp
  then show ?thesis using js ok code r(2,3) by simp
qed

text \<open>
  Claim C5 as stated fails: for one unit at the price 0.0625 the sum of quantity times price
  is 0.0625, and the stored total is the double 0.06, because the handler rounds to cents.
\<close>

theorem C5_counterexample:
  "is_json sixteenth_body \<and> valid_order_request sixteenth_body
   \<and> fst (fst (create_order env1 sixteenth_body [])) = 201
   \<and> map total (snd (create_order env1 sixteenth_body [])) = [to_double (3 / 50)]
   \<and> to_double (3 / 50) = JNum (1080863910568919 / 18014398509481984)
   \<and> exact_sum [item_json ''p1'' ''Widget'' (1 / 16) 1] = 1 / 16
   \<and> to_double (3 / 50) \<noteq> JNum (1 / 16)"
proof -
  have js: "is_json sixteenth_body"
    by (simp add: sixteenth_body_def is_json_order_body item_json_def is_double_sixteenth)
  have ok: "valid_order_request sixteenth_body"
    by (simp add: sixteenth_body_def valid_order_body item_json_def valid_item_def)
  have ck: "check_items [item_json ''p1'' ''Widget'' (1 / 16) 1] = ItemOk"
    by (simp add: check_item_def item_json_def)
  have cr: "fst (fst (create_order env1 sixteenth_body [])) = 201"
      "map total (snd (create_order env1 sixteenth_body [])) = [to_double (3 / 50)]"
    by (simp_all add: create_order_def sixteenth_body_def order_body_def Let_def ck
          new_order_def total_sixteenth del: check_items.simps)
  have ex: "exact_sum [item_json ''p1'' ''Widget'' (1 / 16) 1] = 1 / 16"
    by (simp add: exact_sum_def exact_line_def item_json_def)
  show ?thesis using js ok cr ex by (simp add: double_6_cents)
qed

section \<open>C4: rejected creation requests\<close>

lemma check_items_rejects:
  assumes "\<exists>item\<in>set its. \<not> valid_price (getp item ''price'')
                        \<or> \<not> valid_quantity (getp item ''quantity'')"
    and "\<forall>item\<in>set its. is_json item"
  shows "check_items its \<noteq> ItemOk"
proof -
  have "\<not> list_all valid_item its"
    using assms(1) by (auto simp: list_all_iff valid_item_def)
  then show ?thesis using check_items_valid[OF assms(2)] by simp
qed

lemma nullish_json: "nullish v \<Longrightarrow> is_json v \<Longrightarrow> v = JNull"
  by (cases v) auto

lemma check_items_throws:
  "check_items its = ItemThrows \<Longrightarrow> \<exists>item\<in>set its. nullish item"
  by (induction its) (auto simp: check_item_def split: item_check.splits if_splits)

text \<open>
  What holds of claim C4 for every JSON body that is not \<^verbatim>\<open>null\<close>: when \<^verbatim>\<open>items\<close> is
  missing, not an array or empty, or some item's price is not a non-negative number, or
  some item's quantity is not a positive integer, no order is added; the reply is 400,
  unless \<^verbatim>\<open>items\<close> holds a \<^verbatim>\<open>null\<close> element, where it may be 500.
\<close>

lemma create_order_rejects:
  assumes "is_json body" and nn: "\<not> nullish body"
    and "(\<forall>its. getp body ''items'' \<noteq> JArr its) \<or> getp body ''items'' = JArr []
         \<or> (\<exists>its. getp body ''items'' = JArr its
              \<and> (\<exists>item\<in>set its. \<not> valid_price (getp item ''price'')
                    \<or> \<not> valid_quantity (getp item ''quantity'')))"
  shows "snd (create_order env body orders) = orders"
    and "fst (fst (create_order env body orders)) = 400
         \<or> fst (fst (create_order env body orders)) = 500
            \<and> (\<exists>its. getp body ''items'' = JArr its \<and> JNull \<in> set its)"
proof -
  have not_ok: "check_items its \<noteq> ItemOk" if "getp body ''items'' = JArr its" "its \<noteq> []" for its
    using assms(3) that check_items_rejects[OF _ is_json_items[OF assms(1) that(1)]] by auto
  have null_item: "JNull \<in> set its"
    if a: "getp body ''items'' = JArr its" and b: "check_items its = ItemThrows" for its
  proof -
    obtain item where item: "item \<in> set its" "nullish item"
      using check_items_throws[OF b] by blast
    have "is_json item" using is_json_items[OF assms(1) a] item(1) by blast
    then have "item = JNull" using item(2) nullish_json by blast
    then show ?thesis using item(1) by simp
  qed
  show "snd (create_order env body orders) = orders"
    using not_ok nn
    by (auto simp: create_order_def internal_error_def Let_def
             split: jsval.splits item_check.splits)
  show "fst (fst (create_order env body orders)) = 400
         \<or> fst (fst (create_order env body orders)) = 500
            \<and> (\<exists>its. getp body ''items'' = JArr its \<and> JNull \<in> set its)"
    using not_ok nn null_item
    by (auto simp: create_order_def internal_error_def Let_def
             split: jsval.splits item_check.splits)
qed

text \<open>
  Claim C4 at the failing input. The second item has the price \<open>-1\<close>, so the claim asks for
  a 400 reply; the first element of \<^verbatim>\<open>items\<close> is \<^verbatim>\<open>null\<close>, reading its
  \<^verbatim>\<open>productId\<close> throws, and the handler's \<^verbatim>\<open>catch\<close> answers 500. No order is
  added.
\<close>

theorem C4_null_item_gives_500:
  "create_order env1 (order_body [JNull, item_json ''p1'' ''Widget'' (- 1) 1]) []
     = ((500, ErrorBody ''Internal server error''), [])"
  by (simp add: create_order_def order_body_def check_item_def internal_error_def)

section \<open>C6: what no request changes\<close>

lemma apply_op_core:
  "map order_core (take (length orders) (snd (apply_op op orders))) = map order_core orders
   \<and> length orders \<le> length (snd (apply_op op orders))"
proof (cases op)
  case (CreateOrder env body)
  then show ?thesis
    by (auto simp: create_order_def Let_def split: jsval.splits item_check.splits)
next
  case (GetOrder oid)
  then show ?thesis by (simp add: get_order_def split: option.splits)
next
  case (GetUserOrders uid)
  then show ?thesis by (simp add: get_user_orders_def)
next
  case (UpdateStatus now oid body)
  have "map order_core (update_first (\<lambda>r. orderId r = oid)
            (\<lambda>r. r0\<lparr>status := s, updatedAt := now\<rparr>) orders) = map order_core orders"
    if "find (\<lambda>r. orderId r = oid) orders = Some r0" for r0 s
    using that by (induction orders) (auto simp: order_core_def split: if_splits)
  then show ?thesis using UpdateStatus
    by (auto simp: update_status_def Let_def length_update_first split: option.splits)
next
  case (CancelOrder now oid)
  have "map order_core (update_first (\<lambda>r. orderId r = oid)
            (\<lambda>r. r0\<lparr>status := s, updatedAt := now\<rparr>) orders) = map order_core orders"
    if "find (\<lambda>r. orderId r = oid) orders = Some r0" for r0 s
    using that by (induction orders) (auto simp: order_core_def split: if_splits)
  then show ?thesis using CancelOrder
    by (auto simp: cancel_order_def Let_def length_update_first split: option.splits)
qed

lemma run_ops_core:
  "map order_core (take (length orders) (run_ops ops orders)) = map order_core orders
   \<and> length orders \<le> length (run_ops ops orders)"
proof (induction ops arbitrary: orders)
  case Nil
  then show ?case by simp
next
  case (Cons op ops)
  let ?s1 = "snd (apply_op op orders)"
  have step: "map order_core (take (length orders) ?s1) = map order_core orders"
    and len: "length orders \<le> length ?s1"
    using apply_op_core[of orders op] by auto
  have ih: "map order_core (take (length ?s1) (run_ops ops ?s1)) = map order_core ?s1"
    and ihlen: "length ?s1 \<le> length (run_ops ops ?s1)"
    using Cons.IH[of ?s1] by auto
  have "take (length orders) (run_ops ops ?s1)
          = take (length orders) (take (length ?s1) (run_ops ops ?s1))"
    using len by (simp add: min_def)
  then have "map order_core (take (length orders) (run_ops ops ?s1))
          = take (length orders) (map order_core (take (length ?s1) (run_ops ops ?s1)))"
    by (simp only: take_map)
  also have "\<dots> = map order_core (take (length orders) ?s1)"
    by (simp only: ih take_map)
  finally show ?case using step len ihlen by simp
qed

lemma erase_update_first:
  "find (\<lambda>r. orderId r = oid) orders = Some r0
   \<Longrightarrow> map erase_status (update_first (\<lambda>r. orderId r = oid)
            (\<lambda>r. r0\<lparr>status := s, updatedAt := now\<rparr>) orders) = map erase_status orders"
  by (induction orders) (auto simp: erase_status_def split: if_splits)

lemma update_status_erase:
  "map erase_status (snd (update_status now oid body orders)) = map erase_status orders"
  by (auto simp: update_status_def Let_def erase_update_first split: option.splits)

lemma cancel_order_erase:
  "map erase_status (snd (cancel_order now oid orders)) = map erase_status orders"
  by (auto simp: cancel_order_def Let_def erase_update_first split: option.splits)

lemma find_same_core:
  assumes "map order_core (take (length xs) ys) = map order_core xs"
    and "find (\<lambda>r. orderId r = oid) xs = Some x"
  shows "\<exists>y. find (\<lambda>r. orderId r = oid) ys = Some y \<and> order_core y = order_core x"
  using assms
proof (induction xs arbitrary: ys)
  case Nil
  then show ?case by simp
next
  case (Cons a xs)
  then obtain b ys' where ys: "ys = b # ys'" by (cases ys) auto
  have core: "order_core b = order_core a"
    and rest: "map order_core (take (length xs) ys') = map order_core xs"
    using Cons.prems(1) ys by auto
  have ids: "orderId b = orderId a" using core by (simp add: order_core_def)
  show ?case
  proof (cases "orderId a = oid")
    case True
    then show ?thesis using Cons.prems(2) ys ids core by auto
  next
    case False
    then have "find (\<lambda>r. orderId r = oid) xs = Some x" using Cons.prems(2) by simp
    then show ?thesis using Cons.IH[OF rest] ys ids False by auto
  qed
qed

text \<open>
  Claim C6. After any sequence of requests the orders that were in the store are still
  there, at the same positions, with the same \<^verbatim>\<open>orderId\<close>, \<^verbatim>\<open>userId\<close>,
  \<^verbatim>\<open>items\<close>, \<^verbatim>\<open>shippingAddress\<close>, \<^verbatim>\<open>total\<close> and \<^verbatim>\<open>createdAt\<close>; the
  status update and cancel handlers change nothing but \<^verbatim>\<open>status\<close> and
  \<^verbatim>\<open>updatedAt\<close>; and an order queried by its id at any later time comes back with the
  total, items, id and creation time it had.
\<close>

theorem C6_frame:
  "map order_core (take (length orders) (run_ops ops orders)) = map order_core orders
   \<and> map erase_status (snd (update_status now oid body orders)) = map erase_status orders
   \<and> map erase_status (snd (cancel_order now oid orders)) = map erase_status orders
   \<and> (find (\<lambda>r. orderId r = oid) orders = Some r0
        \<longrightarrow> (\<exists>r1. get_order oid (run_ops ops orders) = ((200, OrderBody r1), run_ops ops orders)
               \<and> total r1 = total r0 \<and> items r1 = items r0
               \<and> orderId r1 = orderId r0 \<and> createdAt r1 = createdAt r0))"
proof -
  have "\<exists>r1. get_order oid (run_ops ops orders) = ((200, OrderBody r1), run_ops ops orders)
               \<and> total r1 = total r0 \<and> items r1 = items r0
               \<and> orderId r1 = orderId r0 \<and> createdAt r1 = createdAt r0"
    if f: "find (\<lambda>r. orderId r = oid) orders = Some r0"
  proof -
    have "map order_core (take (length orders) (run_ops ops orders)) = map order_core orders"
      using run_ops_core by blast
    from find_same_core[OF this f]
    obtain y where "find (\<lambda>r. orderId r = oid) (run_ops ops orders) = Some y"
      and "order_core y = order_core r0" by blast
    then show ?thesis by (auto simp: get_order_def order_core_def)
  qed
  then show ?thesis
    using run_ops_core update_status_erase cancel_order_erase by blast
qed

text \<open>
  Witness for claim C6 with the scenario A order: after a status update, another creation
  and a cancellation its total is still the double 109.97.
\<close>

theorem C6_frame_witness:
  "find (\<lambda>r. orderId r = ''order-1'') created_store = Some scenarioA_order
   \<and> (\<exists>r1. get_order ''order-1''
              (run_ops [UpdateStatus ''t1'' ''order-1'' (status_body ''shipped''),
                        CreateOrder env2 scenarioA_body,
                        CancelOrder ''t2'' ''order-1''] created_store)
            = ((200, OrderBody r1),
               run_ops [UpdateStatus ''t1'' ''order-1'' (status_body ''shipped''),
                        CreateOrder env2 scenarioA_body,
                        CancelOrder ''t2'' ''order-1''] created_store)
          \<and> total r1 = to_double (10997 / 100))"
proof -
  let ?ops = "[UpdateStatus ''t1'' ''order-1'' (status_body ''shipped''),
               CreateOrder env2 scenarioA_body, CancelOrder ''t2'' ''order-1'']"
  have f: "find (\<lambda>r. orderId r = ''order-1'') created_store = Some scenarioA_order"
    by (simp add: created_store_eval)
  from C6_frame [of created_store ?ops "''t0''" "''order-1''" JNull scenarioA_order] f
  obtain r1 where "get_order ''order-1'' (run_ops ?ops created_store)
                     = ((200, OrderBody r1), run_ops ?ops created_store)"
    and "total r1 = total scenarioA_order"
    by blast
  moreover have "total scenarioA_order = to_double (10997 / 100)"
    by (simp add: scenarioA_order_def)
  ultimately show ?thesis using f by auto
qed

section \<open>C7: redelivery bound and quarantine\<close>

lemma consumer_step_inv:
  assumes "place st = Quarantined \<longleftrightarrow> m < receiveCount st \<and> \<not> terminal (order_status st)"
  shows "place (consumer_step m ev st) = Quarantined
         \<longleftrightarrow> m < receiveCount (consumer_step m ev st)
             \<and> \<not> terminal (order_status (consumer_step m ev st))"
proof (cases ev)
  case Receive
  then show ?thesis using assms by auto
next
  case (Process p)
  then show ?thesis using assms by auto
next
  case Acknowledge
  then show ?thesis using assms by auto
next
  case VisibilityTimeout
  then show ?thesis using assms by auto
qed

lemma run_consumer_inv:
  "(place st = Quarantined \<longleftrightarrow> m < receiveCount st \<and> \<not> terminal (order_status st))
   \<Longrightarrow> (place (run_consumer m evs st) = Quarantined
        \<longleftrightarrow> m < receiveCount (run_consumer m evs st)
            \<and> \<not> terminal (order_status (run_consumer m evs st)))"
proof (induction evs arbitrary: st)
  case Nil
  then show ?case by simp
next
  case (Cons ev evs)
  show ?case
    using Cons.IH[OF consumer_step_inv[OF Cons.prems]] by simp
qed

lemma quarantined_step: "place st = Quarantined \<Longrightarrow> consumer_step m ev st = st"
  by (cases ev) auto

lemma quarantined_stays: "place st = Quarantined \<Longrightarrow> run_consumer m evs st = st"
  by (induction evs) (auto simp: quarantined_step)

lemma terminal_step:
  "terminal (order_status st) \<Longrightarrow> order_status (consumer_step m ev st) = order_status st"
  by (cases ev) auto

lemma terminal_stays:
  "terminal (order_status st) \<Longrightarrow> order_status (run_consumer m evs st) = order_status st"
  by (induction evs arbitrary: st) (auto simp: terminal_step)

lemma receive_count_step:
  "receiveCount (consumer_step m ev st)
     = receiveCount st + (if ev = Receive \<and> place st = Queued then 1 else 0)"
  by (cases ev) auto

lemma scenarioE:
  "run_consumer default_maxReceiveCount
     (crashed_delivery @ crashed_delivery @ crashed_delivery @ [Receive]) (enqueued PENDING)
     = \<lparr> receiveCount = 4, place = Quarantined, order_status = PENDING \<rparr>"
  by (simp add: default_maxReceiveCount_def crashed_delivery_def enqueued_def)

text \<open>
  Claim C7, on the consumer modelled from the specification. After any sequence of
  receives, orchestrator writes, acknowledgements and timeouts on an enqueued message, the
  message is in the dead-letter quarantine exactly when it was received more than
  \<open>maxReceiveCount\<close> times and its order has not reached a terminal status. The receive
  count grows by one at each receive of a visible message and at nothing else; a receive
  never writes the order, so quarantining leaves it in its last known status; a quarantined
  message stays where it is and its order as it is; and a terminal status is never left,
  so "has not reached" is "is not in". With the default of 3, a fourth delivery of a
  message whose order is still \<^verbatim>\<open>PENDING\<close> quarantines it and the order stays
  \<^verbatim>\<open>PENDING\<close> (scenario E).
\<close>

theorem C7_quarantine:
  "(place (run_consumer m evs (enqueued s)) = Quarantined
      \<longleftrightarrow> m < receiveCount (run_consumer m evs (enqueued s))
          \<and> \<not> terminal (order_status (run_consumer m evs (enqueued s))))
   \<and> receiveCount (consumer_step m ev st)
       = receiveCount st + (if ev = Receive \<and> place st = Queued then 1 else 0)
   \<and> order_status (consumer_step m Receive st) = order_status st
   \<and> (place st = Quarantined \<longrightarrow> run_consumer m evs st = st)
   \<and> (terminal (order_status st)
      \<longrightarrow> order_status (run_consumer m evs st) = order_status st)
   \<and> run_consumer default_maxReceiveCount
        (crashed_delivery @ crashed_delivery @ crashed_delivery @ [Receive]) (enqueued PENDING)
       = \<lparr> receiveCount = 4, place = Quarantined, order_status = PENDING \<rparr>"
proof -
  have "place (enqueued s) = Quarantined
        \<longleftrightarrow> m < receiveCount (enqueued s) \<and> \<not> terminal (order_status (enqueued s))"
    by (simp add: enqueued_def)
  from run_consumer_inv[OF this]
  have a: "place (run_consumer m evs (enqueued s)) = Quarantined
      \<longleftrightarrow> m < receiveCount (run_consumer m evs (enqueued s))
          \<and> \<not> terminal (order_status (run_consumer m evs (enqueued s)))" .
  have c: "order_status (consumer_step m Receive st) = order_status st"
    by simp
  show ?thesis
    by (intro conjI impI a c receive_count_step scenarioE quarantined_stays terminal_stays)
qed

text \<open>
  Witness for claim C7: scenario E, where the quarantined message then ignores every event;
  and a message whose order was completed without an acknowledgement and which is received
  a second time with \<open>maxReceiveCount = 1\<close>: it is handed over, not quarantined, its
  order stays \<^verbatim>\<open>COMPLETED\<close>, and the acknowledgement deletes it.
\<close>

theorem C7_quarantine_witness:
  "place (run_consumer 3 (crashed_delivery @ crashed_delivery @ crashed_delivery @ [Receive])
            (enqueued PENDING)) = Quarantined
   \<and> 3 < receiveCount (run_consumer 3
            (crashed_delivery @ crashed_delivery @ crashed_delivery @ [Receive])
            (enqueued PENDING))
   \<and> run_consumer 3 [Acknowledge, VisibilityTimeout, Receive]
        \<lparr> receiveCount = 4, place = Quarantined, order_status = PENDING \<rparr>
       = \<lparr> receiveCount = 4, place = Quarantined, order_status = PENDING \<rparr>
   \<and> place (run_consumer 1 (completed_unacknowledged @ [Receive]) (enqueued PENDING)) = InFlight
   \<and> 1 < receiveCount (run_consumer 1 (completed_unacknowledged @ [Receive]) (enqueued PENDING))
   \<and> terminal (order_status
        (run_consumer 1 (completed_unacknowledged @ [Receive]) (enqueued PENDING)))
   \<and> order_status (run_consumer 1 [Receive, Process (\<lambda>s. PENDING), Acknowledge]
        (run_consumer 1 (completed_unacknowledged @ [Receive]) (enqueued PENDING))) = COMPLETED
   \<and> place (run_consumer 1 [Acknowledge]
        (run_consumer 1 (completed_unacknowledged @ [Receive]) (enqueued PENDING))) = Deleted"
proof -
  let ?E = "crashed_delivery @ crashed_delivery @ crashed_delivery @ [Receive]"
  let ?Q = "\<lparr> receiveCount = 4, place = Quarantined, order_status = PENDING \<rparr>"
  let ?D = "run_consumer 1 (completed_unacknowledged @ [Receive]) (enqueued PENDING)"
  have e: "run_consumer 3 ?E (enqueued PENDING) = ?Q"
    by (simp add: crashed_delivery_def enqueued_def)
  have d: "?D = \<lparr> receiveCount = 2, place = InFlight, order_status = COMPLETED \<rparr>"
    by (simp add: completed_unacknowledged_def enqueued_def)
  note i1 = C7_quarantine [of 3 ?E PENDING Receive ?Q]
  note i2 = C7_quarantine [of 3 "[Acknowledge, VisibilityTimeout, Receive]" PENDING Receive ?Q]
  note i3 = C7_quarantine [of 1 "[Receive, Process (\<lambda>s. PENDING), Acknowledge]" PENDING Receive ?D]
  have q: "place (run_consumer 3 ?E (enqueued PENDING)) = Quarantined" using e by simp
  have w1: "3 < receiveCount (run_consumer 3 ?E (enqueued PENDING))"
    using i1[THEN conjunct1] q by simp
  have w2: "run_consumer 3 [Acknowledge, VisibilityTimeout, Receive] ?Q = ?Q"
    using i2 by simp
  have w3: "place ?D = InFlight" "1 < receiveCount ?D" "terminal (order_status ?D)"
    using d by simp_all
  have w4: "order_status (run_consumer 1 [Receive, Process (\<lambda>s. PENDING), Acknowledge] ?D)
              = COMPLETED"
    using i3 w3(3) d by simp
  have w5: "place (run_consumer 1 [Acknowledge] ?D) = Deleted"
    using d by simp
  show ?thesis by (intro conjI q w1 w2 w3 w4 w5)
qed

section \<open>C8: retries with exponential backoff\<close>

lemma attempt_waits:
  "\<exists>k\<le>left. snd (attempt pol cap left n) = map (retry_delay pol) [n..<n + k]
             \<and> (\<forall>i<k. cap (n + i) = TransientFailure)"
proof (induction left arbitrary: n)
  case 0
  show ?case by (cases "cap n") auto
next
  case (Suc left)
  show ?case
  proof (cases "cap n")
    case Success
    then show ?thesis by auto
  next
    case PermanentFailure
    then show ?thesis by auto
  next
    case TransientFailure
    obtain k where k: "k \<le> left"
      "snd (attempt pol cap left (Suc n)) = map (retry_delay pol) [Suc n..<Suc n + k]"
      "\<forall>i<k. cap (Suc n + i) = TransientFailure"
      using Suc.IH[of "Suc n"] by blast
    have "snd (attempt pol cap (Suc left) n) = retry_delay pol n # snd (attempt pol cap left (Suc n))"
      using TransientFailure by (simp add: split_def Let_def)
    also have "\<dots> = map (retry_delay pol) (n # [Suc n..<Suc n + k])"
      using k(2) by simp
    also have "n # [Suc n..<Suc n + k] = [n..<n + Suc k]"
      by (subst (2) upt_rec) simp
    finally have "snd (attempt pol cap (Suc left) n) = map (retry_delay pol) [n..<n + Suc k]" .
    moreover have "\<forall>i<Suc k. cap (n + i) = TransientFailure"
    proof (intro allI impI)
      fix i assume "i < Suc k"
      then show "cap (n + i) = TransientFailure"
        using TransientFailure k(3) by (cases i) auto
    qed
    ultimately show ?thesis using k(1) by (intro exI[of _ "Suc k"]) simp
  qed
qed

lemma run_step_waits:
  "\<exists>k\<le>maxAttempts pol. snd (run_step pol cap) = map (retry_delay pol) [0..<k]
             \<and> (\<forall>i<k. cap i = TransientFailure)"
  using attempt_waits[of "maxAttempts pol" pol cap 0] by (simp add: run_step_def)

lemma run_step_default_exhausted:
  "run_step default_policy always_transient = (RetriesExhausted, [2, 4, 8])"
  by (simp add: run_step_def default_policy_def always_transient_def retry_delay_def
        numeral_3_eq_3)

text \<open>
  Claim C8, on the retry loop modelled from the specification, with the policy the
  repository declares. A capability step waits at most \<open>maxAttempts\<close> times; the wait
  before retry \<open>n\<close>, counting the first retry as retry 0, is
  \<open>intervalSeconds * backoffRate ^ n\<close>, and it follows a transient failure of invocation
  \<open>n\<close>; and each of the three capability steps, under the default policy (interval 2,
  rate 2, at most 3 retries) and a capability that keeps failing transiently, waits 2, 4
  and 8 seconds and then gives up.
\<close>

theorem C8_retry_backoff:
  "length (snd (run_step pol cap)) \<le> maxAttempts pol
   \<and> (\<forall>n<length (snd (run_step pol cap)).
         snd (run_step pol cap) ! n = intervalSeconds pol * backoffRate pol ^ n
         \<and> cap n = TransientFailure)
   \<and> run_step (step_policy step) always_transient = (RetriesExhausted, [2, 4, 8])"
proof -
  obtain k where k: "k \<le> maxAttempts pol"
    "snd (run_step pol cap) = map (retry_delay pol) [0..<k]"
    "\<forall>i<k. cap i = TransientFailure"
    using run_step_waits by blast
  have "length (snd (run_step pol cap)) \<le> maxAttempts pol" using k by simp
  moreover have "\<forall>n<length (snd (run_step pol cap)).
         snd (run_step pol cap) ! n = intervalSeconds pol * backoffRate pol ^ n
         \<and> cap n = TransientFailure"
    using k by (simp add: retry_delay_def)
  moreover have "run_step (step_policy step) always_transient = (RetriesExhausted, [2, 4, 8])"
    by (simp add: step_policy_def run_step_default_exhausted)
  ultimately show ?thesis by blast
qed

text \<open>
  Witness for claim C8 with the default policy: the third wait is 8 seconds. A capability
  that times out twice and then succeeds (scenario D) is invoked three times, after waits
  of 2 and 4 seconds.
\<close>

theorem C8_retry_backoff_witness:
  "(2::nat) < length (snd (run_step default_policy always_transient))
   \<and> snd (run_step default_policy always_transient) ! 2 = 2 * 2 ^ 2
   \<and> always_transient 2 = TransientFailure
   \<and> length (snd (run_step default_policy always_transient)) \<le> 3
   \<and> run_step default_policy (succeeds_after 2) = (Succeeded, [2, 4])"
proof -
  have l: "(2::nat) < length (snd (run_step default_policy always_transient))"
    by (simp add: run_step_default_exhausted)
  have s: "run_step default_policy (succeeds_after 2) = (Succeeded, [2, 4])"
    by (simp add: run_step_def default_policy_def succeeds_after_def retry_delay_def
          numeral_3_eq_3)
  note inst = C8_retry_backoff [of default_policy always_transient ReserveInventory]
  have "snd (run_step default_policy always_transient) ! 2
          = intervalSeconds default_policy * backoffRate default_policy ^ 2
        \<and> always_transient 2 = TransientFailure"
    using inst l by blast
  moreover have "length (snd (run_step default_policy always_transient)) \<le> 3"
    using inst by (simp add: default_policy_def)
  ultimately show ?thesis using l s by (simp add: default_policy_def)
qed

section \<open>C9: one cart entry per product id\<close>

lemma list_all_update_first_ids:
  "(\<And>x. productId (f x) = productId x)
   \<Longrightarrow> list_all (\<lambda>y. \<not> strict_eq p (productId y)) (update_first P f xs)
       = list_all (\<lambda>y. \<not> strict_eq p (productId y)) xs"
  by (induction xs) auto

lemma distinct_ids_update_first:
  "(\<And>x. productId (f x) = productId x)
   \<Longrightarrow> distinct_ids (update_first P f xs) = distinct_ids xs"
  by (induction xs) (auto simp: list_all_update_first_ids)

lemma find_None_all: "find P xs = None \<Longrightarrow> list_all (\<lambda>x. \<not> P x) xs"
  by (induction xs) (auto split: if_splits)

lemma distinct_ids_append:
  "distinct_ids xs \<Longrightarrow> list_all (\<lambda>x. \<not> strict_eq (productId x) (productId new)) xs
   \<Longrightarrow> distinct_ids (xs @ [new])"
  by (induction xs) auto

lemma list_all_remove_first: "list_all Q xs \<Longrightarrow> list_all Q (remove_first P xs)"
  by (induction xs) auto

lemma distinct_ids_remove_first: "distinct_ids xs \<Longrightarrow> distinct_ids (remove_first P xs)"
  by (induction xs) (auto simp: list_all_remove_first)

lemma getCart_distinct:
  "carts_distinct carts \<Longrightarrow> distinct_ids (fst (getCart uid carts))
     \<and> carts_distinct (snd (getCart uid carts))"
  by (auto simp: getCart_def carts_distinct_def split: option.splits)

lemma carts_distinct_upd:
  "carts_distinct carts \<Longrightarrow> distinct_ids its \<Longrightarrow> carts_distinct (carts(uid \<mapsto> its))"
  by (auto simp: carts_distinct_def)

lemma add_item_distinct:
  assumes "carts_distinct carts"
  shows "carts_distinct (snd (add_item rt uid body carts))"
proof -
  obtain its carts1 where g: "getCart uid carts = (its, carts1)" by (cases "getCart uid carts")
  have d: "distinct_ids its" "carts_distinct carts1"
    using getCart_distinct[OF assms, of uid] g by auto
  let ?same = "\<lambda>i. strict_eq (productId i) (getp body ''productId'')"
  show ?thesis
  proof (cases "find ?same its")
    case None
    then have "list_all (\<lambda>x. \<not> strict_eq (productId x) (getp body ''productId'')) its"
      using find_None_all[of ?same its] by simp
    then have "distinct_ids (its @ [\<lparr> productId = getp body ''productId'',
                                     name = getp body ''name'',
                                     price = js_Number rt (getp body ''price''),
                                     quantity = js_Number rt (getp body ''quantity'') \<rparr>])"
      using d(1) by (intro distinct_ids_append) simp_all
    then show ?thesis using None g d assms
      by (simp add: add_item_def Let_def carts_distinct_upd)
  next
    case (Some existing)
    have "distinct_ids (update_first ?same
             (\<lambda>i. i\<lparr>quantity := js_plus rt (quantity i) (getp body ''quantity'')\<rparr>) its)"
      using d(1) by (simp add: distinct_ids_update_first)
    then show ?thesis using Some g d assms
      by (simp add: add_item_def Let_def carts_distinct_upd)
  qed
qed

lemma update_item_distinct:
  assumes "carts_distinct carts"
  shows "carts_distinct (snd (update_item rt uid pid body carts))"
proof -
  obtain its carts1 where g: "getCart uid carts = (its, carts1)" by (cases "getCart uid carts")
  have d: "distinct_ids its" "carts_distinct carts1"
    using getCart_distinct[OF assms, of uid] g by auto
  have "distinct_ids (update_first (\<lambda>i. strict_eq (productId i) (JStr pid))
             (\<lambda>i. i\<lparr>quantity := js_Number rt (getp body ''quantity'')\<rparr>) its)"
    using d(1) by (simp add: distinct_ids_update_first)
  then show ?thesis using g d assms
    by (simp add: update_item_def Let_def carts_distinct_upd split: option.splits)
qed

lemma remove_item_distinct:
  assumes "carts_distinct carts"
  shows "carts_distinct (snd (remove_item uid pid carts))"
proof -
  obtain its carts1 where g: "getCart uid carts = (its, carts1)" by (cases "getCart uid carts")
  have d: "distinct_ids its" "carts_distinct carts1"
    using getCart_distinct[OF assms, of uid] g by auto
  then show ?thesis using g
    by (simp add: remove_item_def Let_def carts_distinct_upd distinct_ids_remove_first
             split: option.splits)
qed

lemma apply_cart_op_distinct:
  assumes "carts_distinct carts"
  shows "carts_distinct (snd (apply_cart_op rt op carts))"
proof (cases op)
  case (GetCart uid)
  then show ?thesis using getCart_distinct[OF assms, of uid]
    by (auto simp: get_cart_def split: prod.splits)
next
  case (AddItem uid body)
  then show ?thesis using add_item_distinct[OF assms] by simp
next
  case (UpdateItem uid pid body)
  then show ?thesis using update_item_distinct[OF assms] by simp
next
  case (RemoveItem uid pid)
  then show ?thesis using remove_item_distinct[OF assms] by simp
next
  case (ClearCart uid)
  then show ?thesis using assms by (auto simp: clear_cart_def carts_distinct_def)
qed

lemma run_cart_ops_distinct:
  "carts_distinct carts \<Longrightarrow> carts_distinct (run_cart_ops rt ops carts)"
  by (induction ops arbitrary: carts) (simp_all add: apply_cart_op_distinct)

text \<open>
  What holds of claim C9 for every sequence of cart requests, whatever their bodies: no cart
  ever holds two entries whose product ids \<^verbatim>\<open>===\<close> identifies. This is one entry per
  product id for ids that are strings, numbers or booleans. An id that is an array or an
  object is never \<^verbatim>\<open>===\<close> to the id of a later request, so the same request sent twice
  leaves two entries that carry the same id.
\<close>

lemma cart_no_duplicates: "carts_distinct (run_cart_ops rt ops Map.empty)"
  by (rule run_cart_ops_distinct) (simp add: carts_distinct_def)

lemma array_ids_coexist:
  "map productId (the (run_cart_ops rt [AddItem ''u1'' array_id_request,
                                        AddItem ''u1'' array_id_request] Map.empty ''u1''))
     = [JArr [JNum 1], JArr [JNum 1]]"
  by (simp add: add_item_def getCart_def array_id_request_def Let_def)

text \<open>
  What holds of claim C9 when the stored and the given quantity are numbers: adding a
  product that is present adds the given quantity to that of the first matching entry (the
  sum of two doubles, rounded to a double) and appends nothing.
\<close>

lemma add_existing_number:
  assumes "carts uid = Some its"
    and "find (\<lambda>i. strict_eq (productId i) (getp body ''productId'')) its = Some existing"
    and "quantity existing = JNum a" and "getp body ''quantity'' = JNum b"
    and "truthy (getp body ''productId'')" and "truthy (getp body ''name'')"
    and "\<not> nullish (getp body ''price'')"
  shows "snd (add_item rt uid body carts) uid
           = Some (update_first (\<lambda>i. strict_eq (productId i) (getp body ''productId''))
                     (\<lambda>i. i\<lparr>quantity := to_double (a + b)\<rparr>) its)"
proof -
  have nn: "\<not> nullish body" using assms(4) by (cases body) auto
  have "update_first (\<lambda>i. strict_eq (productId i) (getp body ''productId''))
          (\<lambda>i. i\<lparr>quantity := js_plus rt (quantity i) (JNum b)\<rparr>) its
        = update_first (\<lambda>i. strict_eq (productId i) (getp body ''productId''))
          (\<lambda>i. i\<lparr>quantity := to_double (a + b)\<rparr>) its"
    using assms(2,3)
    by (induction its) (auto simp: js_plus_def split: if_splits)
  then show ?thesis using assms nn
    by (simp add: add_item_def getCart_def Let_def)
qed

text \<open>
  Claim C9 at the failing input. The product \<^verbatim>\<open>p1\<close> is added with the quantity 2 and
  then again with the quantity \<^verbatim>\<open>"2"\<close>, a string. The second request finds the entry
  and runs \<^verbatim>\<open>existing.quantity += quantity\<close>, which concatenates: the quantity becomes
  the string made of the printed 2 followed by \<^verbatim>\<open>2\<close>, not the number 4. (The path
  that appends a new entry, and the update handler, convert with \<^verbatim>\<open>Number(quantity)\<close>.)
  With the number 2 in both requests the quantity becomes 4.
\<close>

theorem C9_string_quantity_concatenates:
  "run_cart_ops rt [AddItem ''u1'' (cart_request (JNum 2)),
                    AddItem ''u1'' (cart_request (JStr ''2''))] Map.empty ''u1''
     = Some [\<lparr> productId = JStr ''p1'', name = JStr ''Widget'', price = JNum (nearest_double (999 / 100)),
               quantity = JStr (NumberToString rt 2 @ ''2'') \<rparr>]
   \<and> run_cart_ops rt [AddItem ''u1'' (cart_request (JNum 2)),
                      AddItem ''u1'' (cart_request (JNum 2))] Map.empty ''u1''
     = Some [\<lparr> productId = JStr ''p1'', name = JStr ''Widget'', price = JNum (nearest_double (999 / 100)),
               quantity = JNum 4 \<rparr>]"
  using to_double_int[of 4]
  by (simp add: add_item_def getCart_def cart_request_def js_plus_def js_Number_def Let_def)

section \<open>C10: replies of the user service and the stored password\<close>

lemma find_map_cong:
  "map f xs = map f ys
   \<Longrightarrow> map_option f (find (\<lambda>x. Q (f x)) xs) = map_option f (find (\<lambda>x. Q (f x)) ys)"
proof (induction xs arbitrary: ys)
  case Nil
  then show ?case by simp
next
  case (Cons x xs)
  then obtain y ys' where "ys = y # ys'" "f x = f y" "map f xs = map f ys'"
    by (cases ys) auto
  then show ?case using Cons.IH[of ys'] by simp
qed

lemma find_email_cong:
  assumes "map safeUser xs = map safeUser ys"
  shows "map_option safeUser (find (\<lambda>u. strict_eq (email u) e) xs)
           = map_option safeUser (find (\<lambda>u. strict_eq (email u) e) ys)"
  using find_map_cong[OF assms, of "\<lambda>su. strict_eq (safe_email su) e"]
  by (simp add: safeUser_def)

lemma find_id_cong:
  assumes "map safeUser xs = map safeUser ys"
  shows "map_option safeUser (find (\<lambda>u. strict_eq (parseInt10 param) (JNum (of_int (user_id u)))) xs)
           = map_option safeUser (find (\<lambda>u. strict_eq (parseInt10 param) (JNum (of_int (user_id u)))) ys)"
  using find_map_cong[OF assms, of "\<lambda>su. strict_eq (parseInt10 param) (JNum (of_int (safe_id su)))"]
  by (simp add: safeUser_def)

lemma get_user_same:
  assumes "differ_only_in_passwords s1 s2"
  shows "fst (get_user param s1) = fst (get_user param s2)"
proof -
  have "map_option safeUser (find (\<lambda>u. strict_eq (parseInt10 param) (JNum (of_int (user_id u)))) (users s1))
          = map_option safeUser (find (\<lambda>u. strict_eq (parseInt10 param) (JNum (of_int (user_id u)))) (users s2))"
    using assms by (intro find_id_cong) (simp add: differ_only_in_passwords_def)
  then show ?thesis
    by (cases "find (\<lambda>u. strict_eq (parseInt10 param) (JNum (of_int (user_id u)))) (users s1)";
        cases "find (\<lambda>u. strict_eq (parseInt10 param) (JNum (of_int (user_id u)))) (users s2)")
       (simp_all add: get_user_def)
qed

lemma register_user_same:
  assumes "differ_only_in_passwords s1 s2"
  shows "fst (register_user env body s1) = fst (register_user env body s2)"
    and "differ_only_in_passwords (snd (register_user env body s1))
           (snd (register_user env body s2))"
proof -
  have eq: "map_option safeUser (find (\<lambda>u. strict_eq (email u) (getp body ''email'')) (users s1))
          = map_option safeUser (find (\<lambda>u. strict_eq (email u) (getp body ''email'')) (users s2))"
    using assms by (intro find_email_cong) (simp add: differ_only_in_passwords_def)
  have nid: "nextId s1 = nextId s2" using assms by (simp add: differ_only_in_passwords_def)
  show "fst (register_user env body s1) = fst (register_user env body s2)"
    using eq nid
    by (cases "find (\<lambda>u. strict_eq (email u) (getp body ''email'')) (users s1)";
        cases "find (\<lambda>u. strict_eq (email u) (getp body ''email'')) (users s2)")
       (simp_all add: register_user_def Let_def safeUser_def split: sum.splits)
  show "differ_only_in_passwords (snd (register_user env body s1))
           (snd (register_user env body s2))"
    using eq nid assms
    by (cases "find (\<lambda>u. strict_eq (email u) (getp body ''email'')) (users s1)";
        cases "find (\<lambda>u. strict_eq (email u) (getp body ''email'')) (users s2)")
       (simp_all add: register_user_def Let_def safeUser_def differ_only_in_passwords_def
             split: sum.splits)
qed

lemma register_user_hash_free:
  assumes "bcrypt_hash env (getp body ''password'') = Inr h"
  shows "fst (register_user (env\<lparr>bcrypt_hash := \<lambda>v. Inr h'\<rparr>) body st)
           = fst (register_user env body st)"
  using assms
  by (simp add: register_user_def Let_def safeUser_def split: option.splits)

text \<open>
  Claim C10. For two states of the user service that differ at most in stored password
  hashes, register, get-user-by-id and list-users give the same reply to the same request,
  and registering keeps the two states in that relation; moreover the reply to a
  registration does not depend on the hash that bcrypt produced for the new user.
\<close>

theorem C10_no_password_in_replies:
  "(differ_only_in_passwords s1 s2
      \<longrightarrow> fst (register_user env body s1) = fst (register_user env body s2)
        \<and> fst (get_user param s1) = fst (get_user param s2)
        \<and> fst (list_users s1) = fst (list_users s2)
        \<and> differ_only_in_passwords (snd (register_user env body s1))
             (snd (register_user env body s2)))
   \<and> (bcrypt_hash env (getp body ''password'') = Inr h
      \<longrightarrow> fst (register_user (env\<lparr>bcrypt_hash := \<lambda>v. Inr h'\<rparr>) body s1)
            = fst (register_user env body s1))"
proof (intro conjI impI)
  assume d: "differ_only_in_passwords s1 s2"
  show "fst (register_user env body s1) = fst (register_user env body s2)"
    by (rule register_user_same(1)[OF d])
  show "fst (get_user param s1) = fst (get_user param s2)"
    by (rule get_user_same[OF d])
  show "fst (list_users s1) = fst (list_users s2)"
    using d by (simp add: list_users_def differ_only_in_passwords_def)
  show "differ_only_in_passwords (snd (register_user env body s1))
          (snd (register_user env body s2))"
    by (rule register_user_same(2)[OF d])
next
  assume "bcrypt_hash env (getp body ''password'') = Inr h"
  then show "fst (register_user (env\<lparr>bcrypt_hash := \<lambda>v. Inr h'\<rparr>) body s1)
               = fst (register_user env body s1)"
    by (rule register_user_hash_free)
qed

text \<open>\<^verbatim>\<open>parseInt\<close> skips a no-break space (U+00A0) before the digits.\<close>

lemma parseInt10_nbsp: "parseInt10 ([CHR 0xC2, CHR 0xA0] @ ''1'') = JNum 1"
  using to_double_int[of 1]
  by (simp add: parseInt10_def ascii_space_def unicode_spaces_def is_digit_def
        digits_value_def Let_def)

text \<open>
  Witness for claim C10: two states that store different hashes for the same user; a
  registration (201), a lookup (200) and the listing reply the same in both.
\<close>

theorem C10_no_password_in_replies_witness:
  "differ_only_in_passwords (state_with_hash ''hash-1'') (state_with_hash ''hash-2'')
   \<and> state_with_hash ''hash-1'' \<noteq> state_with_hash ''hash-2''
   \<and> fst (register_user register_env1 bob_request (state_with_hash ''hash-1''))
       = fst (register_user register_env1 bob_request (state_with_hash ''hash-2''))
   \<and> fst (fst (register_user register_env1 bob_request (state_with_hash ''hash-1''))) = 201
   \<and> fst (get_user ''1'' (state_with_hash ''hash-1'')) = fst (get_user ''1'' (state_with_hash ''hash-2''))
   \<and> fst (fst (get_user ''1'' (state_with_hash ''hash-1''))) = 200
   \<and> fst (list_users (state_with_hash ''hash-1'')) = fst (list_users (state_with_hash ''hash-2''))
   \<and> bcrypt_hash register_env1 (getp bob_request ''password'') = Inr ''hash-of-secret''"
proof -
  have d: "differ_only_in_passwords (state_with_hash ''hash-1'') (state_with_hash ''hash-2'')"
    by (simp add: differ_only_in_passwords_def state_with_hash_def alice_def safeUser_def)
  have h: "bcrypt_hash register_env1 (getp bob_request ''password'') = Inr ''hash-of-secret''"
    by (simp add: register_env1_def bob_request_def)
  have ne: "state_with_hash ''hash-1'' \<noteq> state_with_hash ''hash-2''"
    by (simp add: state_with_hash_def alice_def)
  have r: "fst (fst (register_user register_env1 bob_request (state_with_hash ''hash-1''))) = 201"
    by (simp add: register_user_def register_env1_def bob_request_def state_with_hash_def
          alice_def Let_def)
  have "parseInt10 ''1'' = JNum 1"
    using to_double_int[of 1]
    by (simp add: parseInt10_def ascii_space_def unicode_spaces_def is_digit_def
          digits_value_def Let_def)
  then have g: "fst (fst (get_user ''1'' (state_with_hash ''hash-1''))) = 200"
    by (simp add: get_user_def state_with_hash_def alice_def)
  note inst = C10_no_password_in_replies [of "state_with_hash ''hash-1''"
            "state_with_hash ''hash-2''" register_env1 bob_request "''1''"
            "''hash-of-secret''" "''other''"]
  note same = inst [THEN conjunct1, THEN mp, OF d]
  note a1 = same [THEN conjunct1]
  note a2 = same [THEN conjunct2, THEN conjunct1]
  note a3 = same [THEN conjunct2, THEN conjunct2, THEN conjunct1]
  show ?thesis by (intro conjI) (rule d h ne r g a1 a2 a3)+
qed

end
